theory Spec2Isabelle
  imports Complex_Main
begin

section \<open>The itinerary recalculation engine of app.js\<close>

text \<open>
  The development embeds the helpers \<open>timeToMinutes\<close>, \<open>minutesToTimeStr\<close>,
  \<open>parseStayDuration\<close>, \<open>getDistanceFromLatLonInKm\<close> and the hook
  \<open>useItineraryCalculation\<close> of \<^verbatim>\<open>src/app.js\<close>, together with the part of the
  JavaScript standard library they call.

  Conventions of the embedding:
  \<^item> A JavaScript number is a \<open>jsnum\<close>: \<open>NaN\<close>, the two infinities, or a finite value.
    Finite values are exact reals: the rounding of IEEE doubles, overflow to an infinity
    and the negative zero are not modelled.
  \<^item> A string is a \<open>string\<close> (a list of 8-bit characters); only the ASCII white space
    characters count as white space.
  \<^item> The four override objects are maps from strings to strings, holding own properties
    only; a missing key is \<open>None\<close> (JavaScript's \<open>undefined\<close>).
\<close>

subsection \<open>JavaScript numbers\<close>

datatype jsnum = NaN | PInf | NInf | Fin real

fun js_add :: "jsnum \<Rightarrow> jsnum \<Rightarrow> jsnum" where
  "js_add (Fin a) (Fin b) = Fin (a + b)"
| "js_add NaN y = NaN"
| "js_add x NaN = NaN"
| "js_add PInf NInf = NaN"
| "js_add NInf PInf = NaN"
| "js_add PInf y = PInf"
| "js_add NInf y = NInf"
| "js_add x PInf = PInf"
| "js_add x NInf = NInf"

definition js_sign_inf :: "bool \<Rightarrow> jsnum" where
  "js_sign_inf positive = (if positive then PInf else NInf)"

fun js_mul :: "jsnum \<Rightarrow> jsnum \<Rightarrow> jsnum" where
  "js_mul (Fin a) (Fin b) = Fin (a * b)"
| "js_mul NaN y = NaN"
| "js_mul x NaN = NaN"
| "js_mul PInf PInf = PInf"
| "js_mul PInf NInf = NInf"
| "js_mul NInf PInf = NInf"
| "js_mul NInf NInf = PInf"
| "js_mul PInf (Fin b) = (if b = 0 then NaN else js_sign_inf (0 < b))"
| "js_mul NInf (Fin b) = (if b = 0 then NaN else js_sign_inf (b < 0))"
| "js_mul (Fin a) PInf = (if a = 0 then NaN else js_sign_inf (0 < a))"
| "js_mul (Fin a) NInf = (if a = 0 then NaN else js_sign_inf (a < 0))"

fun js_div :: "jsnum \<Rightarrow> jsnum \<Rightarrow> jsnum" where
  "js_div (Fin a) (Fin b) =
     (if b = 0 then (if a = 0 then NaN else js_sign_inf (0 < a)) else Fin (a / b))"
| "js_div NaN y = NaN"
| "js_div x NaN = NaN"
| "js_div (Fin a) PInf = Fin 0"
| "js_div (Fin a) NInf = Fin 0"
| "js_div PInf (Fin b) = js_sign_inf (0 \<le> b)"
| "js_div NInf (Fin b) = js_sign_inf (b < 0)"
| "js_div x y = NaN"

text \<open>Truncation towards zero, and the remainder \<open>%\<close>, which takes the sign of the dividend.\<close>

definition trunc :: "real \<Rightarrow> int" where
  "trunc r = (if 0 \<le> r then \<lfloor>r\<rfloor> else \<lceil>r\<rceil>)"

fun js_rem :: "jsnum \<Rightarrow> jsnum \<Rightarrow> jsnum" where
  "js_rem (Fin a) (Fin b) = (if b = 0 then NaN else Fin (a - b * of_int (trunc (a / b))))"
| "js_rem (Fin a) PInf = Fin a"
| "js_rem (Fin a) NInf = Fin a"
| "js_rem x y = NaN"

fun js_gt :: "jsnum \<Rightarrow> jsnum \<Rightarrow> bool" where
  "js_gt (Fin a) (Fin b) = (b < a)"
| "js_gt NaN y = False"
| "js_gt x NaN = False"
| "js_gt PInf PInf = False"
| "js_gt PInf y = True"
| "js_gt x NInf = (x \<noteq> NInf)"
| "js_gt x y = False"

fun Math_floor :: "jsnum \<Rightarrow> jsnum" where
  "Math_floor (Fin r) = Fin (of_int \<lfloor>r\<rfloor>)"
| "Math_floor x = x"

text \<open>\<open>Math.round\<close> rounds to the nearest integer, a tie towards plus infinity.\<close>

fun Math_round :: "jsnum \<Rightarrow> jsnum" where
  "Math_round (Fin r) = Fin (of_int \<lfloor>r + 1 / 2\<rfloor>)"
| "Math_round x = x"

subsection \<open>Printing numbers\<close>

definition digit_char :: "nat \<Rightarrow> char" where
  "digit_char d = ''0123456789'' ! (d mod 10)"

fun show_nat :: "nat \<Rightarrow> string" where
  "show_nat n = (if n < 10 then [digit_char n] else show_nat (n div 10) @ [digit_char (n mod 10)])"

declare show_nat.simps [simp del]

text \<open>
  The digits after the decimal point of a fraction \<open>0 \<le> r < 1\<close>, at most \<open>k\<close> of them.
  A real with a short terminating expansion prints exactly as the double read from
  that decimal literal does; longer expansions are cut off.
\<close>

fun frac_digits :: "nat \<Rightarrow> real \<Rightarrow> string" where
  "frac_digits 0 r = []"
| "frac_digits (Suc k) r =
     (if r = 0 then []
      else digit_char (nat \<lfloor>r * 10\<rfloor>) # frac_digits k (r * 10 - of_int \<lfloor>r * 10\<rfloor>))"

definition show_real :: "real \<Rightarrow> string" where
  "show_real r =
     show_nat (nat \<lfloor>r\<rfloor>) @
     (if r = of_int \<lfloor>r\<rfloor> then [] else ''.'' @ frac_digits 17 (r - of_int \<lfloor>r\<rfloor>))"

text \<open>
  \<open>Number.prototype.toString\<close>, also the conversion used by \<open>+\<close> with a string and by
  template literals. The engine prints whole numbers below \<open>10^21\<close> (the results of
  \<open>Math.floor\<close> and \<open>Math.round\<close>) and the coordinates inside the two map links.
\<close>

fun Number_toString :: "jsnum \<Rightarrow> string" where
  "Number_toString NaN = ''NaN''"
| "Number_toString PInf = ''Infinity''"
| "Number_toString NInf = ''-Infinity''"
| "Number_toString (Fin r) = (if r < 0 then ''-'' @ show_real (- r) else show_real r)"

text \<open>
  \<open>x.toFixed(1)\<close>: the integer \<open>n\<close> for which \<open>n / 10\<close> is nearest to \<open>x\<close> (the larger one
  on a tie), printed with one digit after the point; the sign is split off first.
\<close>

definition toFixed1_abs :: "real \<Rightarrow> string" where
  "toFixed1_abs x =
     (let n = nat \<lfloor>x * 10 + 1 / 2\<rfloor> in show_nat (n div 10) @ ''.'' @ show_nat (n mod 10))"

fun toFixed1 :: "jsnum \<Rightarrow> string" where
  "toFixed1 (Fin x) = (if x < 0 then ''-'' @ toFixed1_abs (- x) else toFixed1_abs x)"
| "toFixed1 x = Number_toString x"

subsection \<open>Strings\<close>

text \<open>\<open>s.padStart(n, pad)\<close>\<close>

definition padStart :: "nat \<Rightarrow> string \<Rightarrow> string \<Rightarrow> string" where
  "padStart n pad s =
     (if n \<le> length s \<or> pad = [] then s
      else take (n - length s) (concat (replicate (n - length s) pad)) @ s)"

text \<open>\<open>s.split(c)\<close> for a separator of one character: never an empty array.\<close>

fun split :: "char \<Rightarrow> string \<Rightarrow> string list" where
  "split c [] = [[]]"
| "split c (x # xs) =
     (if x = c then [] # split c xs
      else (case split c xs of [] \<Rightarrow> [[x]] | p # ps \<Rightarrow> (x # p) # ps))"

fun startsWith :: "string \<Rightarrow> string \<Rightarrow> bool" where
  "startsWith s [] = True"
| "startsWith [] (p # ps) = False"
| "startsWith (x # xs) (p # ps) = (x = p \<and> startsWith xs ps)"

text \<open>\<open>s.includes(sub)\<close>\<close>

fun includes_str :: "string \<Rightarrow> string \<Rightarrow> bool" where
  "includes_str [] sub = (sub = [])"
| "includes_str (x # xs) sub = (startsWith (x # xs) sub \<or> includes_str xs sub)"

subsection \<open>Reading numbers: \<open>Number\<close>, \<open>parseFloat\<close>, \<open>parseInt\<close>\<close>

definition is_ws :: "char \<Rightarrow> bool" where
  "is_ws c = (c \<in> set [CHR 0x09, CHR 0x0A, CHR 0x0B, CHR 0x0C, CHR 0x0D, CHR '' ''])"

definition trimStart :: "string \<Rightarrow> string" where
  "trimStart s = dropWhile is_ws s"

definition trim :: "string \<Rightarrow> string" where
  "trim s = rev (dropWhile is_ws (rev (dropWhile is_ws s)))"

text \<open>The value of a digit in base 16; decimal digits are those below 10.\<close>

definition hex_val :: "char \<Rightarrow> nat option" where
  "hex_val c = map_of
     [(CHR ''0'', 0), (CHR ''1'', 1), (CHR ''2'', 2), (CHR ''3'', 3), (CHR ''4'', 4),
      (CHR ''5'', 5), (CHR ''6'', 6), (CHR ''7'', 7), (CHR ''8'', 8), (CHR ''9'', 9),
      (CHR ''a'', 10), (CHR ''b'', 11), (CHR ''c'', 12), (CHR ''d'', 13), (CHR ''e'', 14),
      (CHR ''f'', 15), (CHR ''A'', 10), (CHR ''B'', 11), (CHR ''C'', 12), (CHR ''D'', 13),
      (CHR ''E'', 14), (CHR ''F'', 15)] c"

definition is_digit_in :: "nat \<Rightarrow> char \<Rightarrow> bool" where
  "is_digit_in radix c = (case hex_val c of None \<Rightarrow> False | Some d \<Rightarrow> d < radix)"

definition digit_val :: "char \<Rightarrow> nat" where
  "digit_val c = (case hex_val c of None \<Rightarrow> 0 | Some d \<Rightarrow> d)"

definition digits_val :: "nat \<Rightarrow> string \<Rightarrow> nat" where
  "digits_val radix ds = foldl (\<lambda>a c. radix * a + digit_val c) 0 ds"

text \<open>
  The longest prefix that is a \<open>StrUnsignedDecimalLiteral\<close>
  (\<open>Infinity\<close>, \<open>digits [. [digits]] [exponent]\<close> or \<open>. digits [exponent]\<close>),
  with its value and the rest of the input; \<open>None\<close> when there is none.
\<close>

definition exponent_part :: "string \<Rightarrow> int \<times> string" where
  "exponent_part s =
     (case s of
        [] \<Rightarrow> (0, s)
      | e # r \<Rightarrow>
          if e = CHR ''e'' \<or> e = CHR ''E'' then
            (let neg = startsWith r ''-'';
                 r1 = (if startsWith r ''-'' \<or> startsWith r ''+'' then tl r else r);
                 ds = takeWhile (is_digit_in 10) r1
             in if ds = [] then (0, s)
                else ((if neg then - int (digits_val 10 ds) else int (digits_val 10 ds)),
                      dropWhile (is_digit_in 10) r1))
          else (0, s))"

definition pow10 :: "int \<Rightarrow> real" where
  "pow10 e = (if 0 \<le> e then 10 ^ nat e else 1 / 10 ^ nat (- e))"

definition unsigned_decimal :: "string \<Rightarrow> (jsnum \<times> string) option" where
  "unsigned_decimal s =
     (if startsWith s ''Infinity'' then Some (PInf, drop 8 s)
      else
        let ip = takeWhile (is_digit_in 10) s;
            r1 = dropWhile (is_digit_in 10) s;
            dot = startsWith r1 ''.'';
            fp = (if dot then takeWhile (is_digit_in 10) (tl r1) else []);
            r2 = (if dot then dropWhile (is_digit_in 10) (tl r1) else r1)
        in if ip = [] \<and> fp = [] then None
           else
             let (e, r3) = exponent_part r2;
                 mant = real (digits_val 10 ip) + real (digits_val 10 fp) / 10 ^ length fp
             in Some (Fin (mant * pow10 e), r3))"

definition js_neg :: "jsnum \<Rightarrow> jsnum" where
  "js_neg x = (case x of NaN \<Rightarrow> NaN | PInf \<Rightarrow> NInf | NInf \<Rightarrow> PInf | Fin r \<Rightarrow> Fin (- r))"

definition signed_decimal :: "string \<Rightarrow> (jsnum \<times> string) option" where
  "signed_decimal s =
     (if startsWith s ''-'' then map_option (\<lambda>(v, r). (js_neg v, r)) (unsigned_decimal (tl s))
      else if startsWith s ''+'' then unsigned_decimal (tl s)
      else unsigned_decimal s)"

text \<open>\<open>0x\<close>, \<open>0o\<close> and \<open>0b\<close> literals, which \<open>Number\<close> accepts without a sign.\<close>

definition radix_prefix :: "string \<Rightarrow> nat option" where
  "radix_prefix s =
     (if startsWith s ''0x'' \<or> startsWith s ''0X'' then Some 16
      else if startsWith s ''0o'' \<or> startsWith s ''0O'' then Some 8
      else if startsWith s ''0b'' \<or> startsWith s ''0B'' then Some 2
      else None)"

definition Number :: "string \<Rightarrow> jsnum" where
  "Number s =
     (let t = trim s in
      if t = [] then Fin 0
      else case radix_prefix t of
        Some radix \<Rightarrow>
          (let ds = drop 2 t in
           if ds \<noteq> [] \<and> list_all (is_digit_in radix) ds then Fin (real (digits_val radix ds))
           else NaN)
      | None \<Rightarrow>
          (case signed_decimal t of
             Some (v, []) \<Rightarrow> v
           | _ \<Rightarrow> NaN))"

definition parseFloat :: "string \<Rightarrow> jsnum" where
  "parseFloat s = (case signed_decimal (trimStart s) of Some (v, r) \<Rightarrow> v | None \<Rightarrow> NaN)"

text \<open>\<open>parseInt(s)\<close> with no radix argument.\<close>

definition parseInt :: "string \<Rightarrow> jsnum" where
  "parseInt s =
     (let t = trimStart s;
          neg = startsWith t ''-'';
          t1 = (if startsWith t ''-'' \<or> startsWith t ''+'' then tl t else t);
          hex = (startsWith t1 ''0x'' \<or> startsWith t1 ''0X'');
          radix = (if hex then 16 else 10);
          t2 = (if hex then drop 2 t1 else t1);
          ds = takeWhile (is_digit_in radix) t2
      in if ds = [] then NaN
         else Fin (if neg then - real (digits_val radix ds) else real (digits_val radix ds)))"

subsection \<open>Values that may be missing\<close>

text \<open>
  A property read from an object is a string or \<open>undefined\<close>. Only a non-empty string
  is truthy; \<open>x || d\<close> is \<open>x\<close> when \<open>x\<close> is truthy and \<open>d\<close> otherwise.
\<close>

definition truthy :: "string option \<Rightarrow> bool" where
  "truthy x = (case x of None \<Rightarrow> False | Some s \<Rightarrow> s \<noteq> [])"

definition js_or :: "string option \<Rightarrow> string \<Rightarrow> string" where
  "js_or x d = (case x of None \<Rightarrow> d | Some s \<Rightarrow> if s \<noteq> [] then s else d)"

subsection \<open>The helpers of app.js\<close>

text \<open>
  \<open>timeToMinutes\<close> (lines 64 to 68). The destructuring \<open>[h, m]\<close> leaves \<open>m\<close> undefined
  when the string has no colon, and \<open>h * 60 + undefined\<close> is \<open>NaN\<close>.
\<close>

definition timeToMinutes :: "string \<Rightarrow> jsnum" where
  "timeToMinutes t =
     (if t = [] then Fin 0
      else case map Number (split CHR '':'' t) of
             h # m # rest \<Rightarrow> js_add (js_mul h (Fin 60)) m
           | _ \<Rightarrow> NaN)"

text \<open>\<open>minutesToTimeStr\<close> (lines 69 to 74).\<close>

definition minutesToTimeStr :: "jsnum \<Rightarrow> string" where
  "minutesToTimeStr m =
     (let h = Math_floor (js_div m (Fin 60));
          mn = Math_floor (js_rem m (Fin 60));
          h24 = js_rem h (Fin 24)
      in padStart 2 ''0'' (Number_toString h24) @ '':'' @ padStart 2 ''0'' (Number_toString mn))"

text \<open>\<open>parseStayDuration\<close> (lines 75 to 80), on a string.\<close>

definition parseStayDuration :: "string \<Rightarrow> jsnum" where
  "parseStayDuration s =
     (if s = [] \<or> s = ''-'' \<or> s = ''Overnight'' then Fin 0
      else if includes_str s ''hr'' then js_mul (parseFloat s) (Fin 60)
      else if includes_str s ''min'' then parseInt s
      else Fin 0)"

text \<open>
  \<open>Math.atan2\<close> on finite arguments, and \<open>getDistanceFromLatLonInKm\<close> (lines 94 to 106),
  which returns the string made by \<open>toFixed(1)\<close>. The argument of both square roots lies
  between 0 and 1 (lemma \<open>haversine_a_range\<close> below), so \<open>Math.sqrt\<close> is the real square
  root here.
\<close>

definition Math_atan2 :: "real \<Rightarrow> real \<Rightarrow> real" where
  "Math_atan2 y x =
     (if 0 < x then arctan (y / x)
      else if x < 0 then (if 0 \<le> y then arctan (y / x) + pi else arctan (y / x) - pi)
      else if 0 < y then pi / 2
      else if y < 0 then - (pi / 2)
      else 0)"

definition haversine_a :: "real \<Rightarrow> real \<Rightarrow> real \<Rightarrow> real \<Rightarrow> real" where
  "haversine_a lat1 lon1 lat2 lon2 =
     (let dLat = (lat2 - lat1) * (pi / 180);
          dLon = (lon2 - lon1) * (pi / 180)
      in sin (dLat / 2) * sin (dLat / 2) +
         cos (lat1 * (pi / 180)) * cos (lat2 * (pi / 180)) * sin (dLon / 2) * sin (dLon / 2))"

definition haversine_km :: "real \<Rightarrow> real \<Rightarrow> real \<Rightarrow> real \<Rightarrow> real" where
  "haversine_km lat1 lon1 lat2 lon2 =
     (let R = 6371;
          a = haversine_a lat1 lon1 lat2 lon2;
          c = 2 * Math_atan2 (sqrt a) (sqrt (1 - a))
      in R * c)"

definition getDistanceFromLatLonInKm :: "real \<Rightarrow> real \<Rightarrow> real \<Rightarrow> real \<Rightarrow> string" where
  "getDistanceFromLatLonInKm lat1 lon1 lat2 lon2 = toFixed1 (Fin (haversine_km lat1 lon1 lat2 lon2))"

subsection \<open>Reference data and derived records\<close>

record ticket =
  adult :: real
  child :: real

record stop =
  name :: string
  lat :: real
  lon :: real
  ticket :: "ticket option"
  mapCode :: "string option"
  desc :: "string option"

record nextStopInfo =
  next_name :: string
  distance :: string
  driveTime :: string
  walkTime :: string
  navLink :: string

text \<open>
  The derived record is the spread \<open>{...spot, id: ..., time: ..., ...}\<close>: every field of
  the stop, and the fields the engine adds. The entry \<open>ticket: spot.ticket || null\<close> keeps
  a ticket and leaves a missing one missing.
\<close>

record derived_stop = stop +
  id_field :: string
  time :: string
  stay :: string
  isDeparted :: bool
  actualDepTime :: "string option"
  nextStop :: "nextStopInfo option"
  nextArrivalTime :: string
  mapcodeDisplay :: string
  gmapLink :: string
  weather :: string
  temp :: string

record 's day =
  dayId :: string
  title :: string
  spots :: "'s list"

subsection \<open>The engine: \<open>useItineraryCalculation\<close> (lines 117 to 211)\<close>

type_synonym overrides = "string \<Rightarrow> string option"

text \<open>The template literal \<open>`${day.dayId}-s${idx}`\<close>.\<close>

definition mkSpotId :: "string \<Rightarrow> nat \<Rightarrow> string" where
  "mkSpotId d idx = d @ ''-s'' @ show_nat idx"

text \<open>
  Lines 133 to 143: the minutes of departure, \<open>isDeparted\<close> and \<open>actualDepTime\<close>.
\<close>

definition departure :: "overrides \<Rightarrow> string \<Rightarrow> string \<Rightarrow> jsnum \<Rightarrow> jsnum \<times> bool \<times> string option" where
  "departure actualDepartures spotId stayStr currentMinutes =
     (if truthy (actualDepartures spotId)
      then (timeToMinutes (js_or (actualDepartures spotId) []), True, actualDepartures spotId)
      else (js_add currentMinutes (parseStayDuration stayStr), False, None))"

text \<open>Lines 156 to 159: the travel time of the leg, from the distance string.\<close>

definition travelMinutes_of :: "string \<Rightarrow> string \<Rightarrow> jsnum" where
  "travelMinutes_of distKm mode =
     (let speed = (if mode = ''car'' then 40 else 4);
          travelMinutes = Math_round (js_mul (js_div (Number distKm) (Fin speed)) (Fin 60))
      in if mode = ''car'' then js_add travelMinutes (Fin 10) else travelMinutes)"

text \<open>Lines 170 to 183: the text of a duration, as written twice in the source.\<close>

definition formatDuration :: "jsnum \<Rightarrow> string" where
  "formatDuration mins =
     (if js_gt mins (Fin 60)
      then Number_toString (Math_floor (js_div mins (Fin 60))) @ ''h'' @
           Number_toString (js_rem mins (Fin 60)) @ ''m''
      else Number_toString mins @ ''m'')"

definition mkNextStopInfo :: "stop \<Rightarrow> stop \<Rightarrow> string \<Rightarrow> string \<Rightarrow> nextStopInfo" where
  "mkNextStopInfo spot nextSpot distKm mode =
     (let displayDriveMins = js_add (Math_round (js_mul (js_div (Number distKm) (Fin 40)) (Fin 60))) (Fin 10);
          displayWalkMins = Math_round (js_mul (js_div (Number distKm) (Fin 4)) (Fin 60))
      in \<lparr> next_name = name nextSpot,
           distance = distKm @ '' km'',
           driveTime = formatDuration displayDriveMins,
           walkTime = formatDuration displayWalkMins,
           navLink = ''https://www.google.com/maps/dir/?api=1&origin='' @
             Number_toString (Fin (lat spot)) @ '','' @ Number_toString (Fin (lon spot)) @
             ''&destination='' @ Number_toString (Fin (lat nextSpot)) @ '','' @
             Number_toString (Fin (lon nextSpot)) @ ''&travelmode='' @
             (if mode = ''car'' then ''driving'' else ''walking'') \<rparr>)"

text \<open>
  The body of the callback of \<open>day.spots.map\<close> (lines 128 to 207): the derived record of
  the stop at index \<open>idx\<close>, and the value the closure variable \<open>currentMinutes\<close> has
  afterwards.
\<close>

definition calcSpot ::
  "overrides \<Rightarrow> overrides \<Rightarrow> overrides \<Rightarrow> stop day \<Rightarrow> nat \<Rightarrow> jsnum \<Rightarrow> stop \<Rightarrow> derived_stop \<times> jsnum" where
  "calcSpot actualDepartures stays transportModes dy idx currentMinutes spot =
     (let spotId = mkSpotId (dayId dy) idx;
          stayStr = js_or (stays spotId) ''1.5 hr'';
          arrivalTimeStr = minutesToTimeStr currentMinutes;
          (departureMinutes, isDep, actualDep) = departure actualDepartures spotId stayStr currentMinutes;
          (currentMinutes', nextStopInfo, nextArrivalTimeStr) =
            (if idx < length (spots dy) - 1 then
               (let nextSpot = spots dy ! (idx + 1);
                    distKm = getDistanceFromLatLonInKm (lat spot) (lon spot) (lat nextSpot) (lon nextSpot);
                    mode = js_or (transportModes spotId) ''car'';
                    travelMinutes = travelMinutes_of distKm mode;
                    cur = js_add departureMinutes travelMinutes
                in (cur, Some (mkNextStopInfo spot nextSpot distKm mode), minutesToTimeStr cur))
             else (currentMinutes, None, []))
      in (stop.extend spot
            (derived_stop.fields spotId arrivalTimeStr stayStr isDep actualDep nextStopInfo
               nextArrivalTimeStr (js_or (mapCode spot) ''GPS'')
               (''https://www.google.com/maps/search/?api=1&query='' @
                  Number_toString (Fin (lat spot)) @ '','' @ Number_toString (Fin (lon spot)))
               ''sunny'' (''10'' @ [CHR 0xC2, CHR 0xB0] @ ''C'')),
          currentMinutes'))"

text \<open>
  \<open>array.map((spot, idx) => ...)\<close> with a callback that reads and writes one closure
  variable: the elements are visited in order, each with its index.
\<close>

fun mapSpots :: "(nat \<Rightarrow> jsnum \<Rightarrow> 'a \<Rightarrow> 'b \<times> jsnum) \<Rightarrow> nat \<Rightarrow> jsnum \<Rightarrow> 'a list \<Rightarrow> 'b list" where
  "mapSpots f idx cur [] = []"
| "mapSpots f idx cur (spot # rest) = fst (f idx cur spot) # mapSpots f (Suc idx) (snd (f idx cur spot)) rest"

definition calcDay :: "overrides \<Rightarrow> overrides \<Rightarrow> overrides \<Rightarrow> overrides \<Rightarrow> stop day \<Rightarrow> derived_stop day" where
  "calcDay dayStartTimes actualDepartures stays transportModes dy =
     (let currentMinutes = timeToMinutes (js_or (dayStartTimes (dayId dy)) ''09:00'');
          newSpots = mapSpots (calcSpot actualDepartures stays transportModes dy) 0 currentMinutes (spots dy)
      in \<lparr> dayId = dayId dy, title = title dy, spots = newSpots \<rparr>)"

text \<open>The function passed to \<open>useMemo\<close>; \<open>rawKml || []\<close> turns a missing list into the empty one.\<close>

definition itinerary ::
  "stop day list option \<Rightarrow> overrides \<Rightarrow> overrides \<Rightarrow> overrides \<Rightarrow> overrides \<Rightarrow> derived_stop day list" where
  "itinerary rawKml dayStartTimes actualDepartures stays transportModes =
     map (calcDay dayStartTimes actualDepartures stays transportModes)
       (case rawKml of None \<Rightarrow> [] | Some days \<Rightarrow> days)"

subsection \<open>Times of day\<close>

text \<open>
  The text \<open>HH:MM\<close> of a minute count, two digits each, and the strings that are a time of
  day in that form (hours below 24, minutes below 60), as an input of type \<open>time\<close> and
  the handler \<open>handleDepartureToggle\<close> produce them.
\<close>

definition pad2 :: "nat \<Rightarrow> string" where
  "pad2 n = padStart 2 ''0'' (show_nat n)"

definition show_hhmm :: "nat \<Rightarrow> string" where
  "show_hhmm n = pad2 (n div 60) @ '':'' @ pad2 (n mod 60)"

definition wf_hhmm :: "string \<Rightarrow> bool" where
  "wf_hhmm s =
     (length s = 5 \<and> s ! 2 = CHR '':'' \<and>
      list_all (is_digit_in 10) (take 2 s) \<and> list_all (is_digit_in 10) (drop 3 s) \<and>
      digits_val 10 (take 2 s) < 24 \<and> digits_val 10 (drop 3 s) < 60)"

definition minutes_of_hhmm :: "string \<Rightarrow> nat" where
  "minutes_of_hhmm s = digits_val 10 (take 2 s) * 60 + digits_val 10 (drop 3 s)"

subsection \<open>The running clock, stop by stop\<close>

text \<open>
  The value of the closure variable when the callback reaches the element at position
  \<open>k\<close> of the list.
\<close>

fun clock_at :: "(nat \<Rightarrow> jsnum \<Rightarrow> 'a \<Rightarrow> 'b \<times> jsnum) \<Rightarrow> nat \<Rightarrow> jsnum \<Rightarrow> 'a list \<Rightarrow> nat \<Rightarrow> jsnum" where
  "clock_at f idx cur xs 0 = cur"
| "clock_at f idx cur [] (Suc k) = cur"
| "clock_at f idx cur (x # xs) (Suc k) = clock_at f (Suc idx) (snd (f idx cur x)) xs k"

text \<open>
  For the stop at index \<open>k\<close> of a day: the value of \<open>currentMinutes\<close> on arrival, the
  value of \<open>departureMinutes\<close> (the effective departure), and the value of
  \<open>travelMinutes\<close> for the leg to the next stop.
\<close>

definition arrivalClock :: "overrides \<Rightarrow> overrides \<Rightarrow> overrides \<Rightarrow> overrides \<Rightarrow> stop day \<Rightarrow> nat \<Rightarrow> jsnum" where
  "arrivalClock dayStartTimes actualDepartures stays transportModes dy k =
     clock_at (calcSpot actualDepartures stays transportModes dy) 0
       (timeToMinutes (js_or (dayStartTimes (dayId dy)) ''09:00'')) (spots dy) k"

definition effectiveDeparture :: "overrides \<Rightarrow> overrides \<Rightarrow> overrides \<Rightarrow> overrides \<Rightarrow> stop day \<Rightarrow> nat \<Rightarrow> jsnum" where
  "effectiveDeparture dayStartTimes actualDepartures stays transportModes dy k =
     fst (departure actualDepartures (mkSpotId (dayId dy) k)
            (js_or (stays (mkSpotId (dayId dy) k)) ''1.5 hr'')
            (arrivalClock dayStartTimes actualDepartures stays transportModes dy k))"

definition legMinutes :: "overrides \<Rightarrow> stop day \<Rightarrow> nat \<Rightarrow> jsnum" where
  "legMinutes transportModes dy k =
     travelMinutes_of
       (getDistanceFromLatLonInKm (lat (spots dy ! k)) (lon (spots dy ! k))
          (lat (spots dy ! Suc k)) (lon (spots dy ! Suc k)))
       (js_or (transportModes (mkSpotId (dayId dy) k)) ''car'')"



text \<open>The haversine distance in kilometres, rounded to one decimal place.\<close>

definition rounded_km :: "real \<Rightarrow> real \<Rightarrow> real \<Rightarrow> real \<Rightarrow> real" where
  "rounded_km lat1 lon1 lat2 lon2 = real_of_int \<lfloor>haversine_km lat1 lon1 lat2 lon2 * 10 + 1 / 2\<rfloor> / 10"

text \<open>
  The rounded distance of the leg that leaves the stop at index \<open>k\<close>, and the minutes the
  two modes take for a distance: 40 km/h and 10 minutes of overhead by car, 4 km/h on
  foot, rounded to whole minutes.
\<close>

definition legKm :: "stop day \<Rightarrow> nat \<Rightarrow> real" where
  "legKm dy k =
     rounded_km (lat (spots dy ! k)) (lon (spots dy ! k)) (lat (spots dy ! Suc k)) (lon (spots dy ! Suc k))"

definition driveMinutes :: "real \<Rightarrow> nat" where
  "driveMinutes km = nat \<lfloor>km / 40 * 60 + 1 / 2\<rfloor> + 10"

definition walkMinutes :: "real \<Rightarrow> nat" where
  "walkMinutes km = nat \<lfloor>km / 4 * 60 + 1 / 2\<rfloor>"


subsection \<open>The memoised hook\<close>






subsection \<open>Example inputs\<close>

text \<open>
  The two stops of the end-to-end scenario of the specification, a day that visits them
  in order, and a day whose two stops share their coordinates.
\<close>

definition stopA :: stop where
  "stopA = \<lparr> name = ''A'', lat = 35.6895, lon = 139.6917, ticket = None, mapCode = None, desc = None \<rparr>"

definition stopB :: stop where
  "stopB = \<lparr> name = ''B'', lat = 35.6586, lon = 139.7454, ticket = None, mapCode = None, desc = None \<rparr>"

definition day1 :: "stop day" where
  "day1 = \<lparr> dayId = ''day1'', title = ''Day 1'', spots = [stopA, stopB] \<rparr>"

definition day2 :: "stop day" where
  "day2 = \<lparr> dayId = ''day2'', title = ''Day 2'', spots = [stopA, stopA] \<rparr>"




section \<open>Properties\<close>

subsection \<open>Printing and reading numbers\<close>

lemma is_digit_in_10_iff: "is_digit_in 10 c = (c \<in> set ''0123456789'')"
  by (simp add: is_digit_in_def hex_val_def)

lemma digit_char_is_digit: "is_digit_in 10 (digit_char d)"
proof -
  have "d mod 10 < 10" by simp
  then have "d mod 10 \<in> {0,1,2,3,4,5,6,7,8,9}" by (simp; arith)
  then show ?thesis
    unfolding is_digit_in_10_iff digit_char_def by (auto)
qed

lemma digit_val_digit_char: "d < 10 \<Longrightarrow> digit_val (digit_char d) = d"
proof -
  assume "d < 10"
  then have "d \<in> {0,1,2,3,4,5,6,7,8,9}" by auto
  then show ?thesis
    by (auto simp: digit_val_def hex_val_def digit_char_def)
qed

lemma show_nat_digits: "list_all (is_digit_in 10) (show_nat n)"
proof (induction n rule: show_nat.induct)
  case (1 n)
  show ?case
  proof (cases "n < 10")
    case True
    then show ?thesis by (subst show_nat.simps) (simp add: digit_char_is_digit)
  next
    case False
    with 1 show ?thesis by (subst show_nat.simps) (simp add: digit_char_is_digit)
  qed
qed

lemma show_nat_nonempty: "show_nat n \<noteq> []"
  by (subst show_nat.simps) simp

lemma digits_val_snoc: "digits_val r (ds @ [c]) = r * digits_val r ds + digit_val c"
  by (simp add: digits_val_def)

lemma digits_val_show_nat: "digits_val 10 (show_nat n) = n"
proof (induction n rule: show_nat.induct)
  case (1 n)
  show ?case
  proof (cases "n < 10")
    case True
    then show ?thesis by (subst show_nat.simps) (simp add: digits_val_def digit_val_digit_char)
  next
    case False
    with 1 show ?thesis
      by (subst show_nat.simps) (simp add: digits_val_snoc digit_val_digit_char)
  qed
qed


lemma digit_not_special:
  assumes "is_digit_in 10 c"
  shows "\<not> is_ws c" "c \<noteq> CHR ''-''" "c \<noteq> CHR ''+''" "c \<noteq> CHR ''I''" "c \<noteq> CHR ''.''"
    "c \<noteq> CHR ''x''" "c \<noteq> CHR ''X''" "c \<noteq> CHR ''o''" "c \<noteq> CHR ''O''" "c \<noteq> CHR ''b''" "c \<noteq> CHR ''B''"
    "c \<noteq> CHR ''e''" "c \<noteq> CHR ''E''"
  using assms unfolding is_digit_in_10_iff is_ws_def by auto

lemma dot_not_digit: "\<not> is_digit_in 10 CHR ''.''" "\<not> is_ws CHR ''.''"
  by (simp_all add: is_digit_in_10_iff is_ws_def)

lemma trim_id:
  assumes "s \<noteq> []" "\<not> is_ws (hd s)" "\<not> is_ws (last s)"
  shows "trim s = s"
proof -
  have 1: "dropWhile is_ws s = s" using assms by (cases s) auto
  have 2: "dropWhile is_ws (rev s) = rev s" using assms by (cases "rev s") (auto simp: hd_rev)
  show ?thesis by (simp add: trim_def 1 2)
qed

lemma digits_head_last:
  assumes "ds \<noteq> []" "list_all (is_digit_in 10) ds"
  shows "is_digit_in 10 (hd ds)" "is_digit_in 10 (last ds)"
  using assms by (auto simp: list_all_iff)

lemma radix_prefix_digits:
  assumes "ds \<noteq> []" "list_all (is_digit_in 10) ds" and that: "r = [] \<or> hd r = CHR ''.''"
  shows "radix_prefix (ds @ r) = None"
proof (cases ds)
  case Nil
  then show ?thesis using assms by simp
next
  case (Cons a as)
  show ?thesis
  proof (cases as)
    case Nil
    then show ?thesis using Cons that by (cases r) (auto simp: radix_prefix_def)
  next
    case (Cons b bs)
    then have "is_digit_in 10 b" using assms \<open>ds = a # as\<close> by simp
    then show ?thesis using Cons \<open>ds = a # as\<close> digit_not_special[of b] by (auto simp: radix_prefix_def)
  qed
qed

lemma startsWith_hd: "p \<noteq> [] \<Longrightarrow> s \<noteq> [] \<Longrightarrow> hd s \<noteq> hd p \<Longrightarrow> \<not> startsWith s p"
  by (cases s; cases p) auto

lemma unsigned_decimal_digits:
  assumes "ds \<noteq> []" "list_all (is_digit_in 10) ds"
  shows "unsigned_decimal ds = Some (Fin (real (digits_val 10 ds)), [])"
proof -
  have h: "is_digit_in 10 (hd ds)" using assms by (rule digits_head_last)
  have nI: "\<not> startsWith ds ''Infinity''"
    using assms(1) h digit_not_special(4)[of "hd ds"] by (intro startsWith_hd) auto
  have tw: "takeWhile (is_digit_in 10) ds = ds" "dropWhile (is_digit_in 10) ds = []"
    using assms(2) by (auto simp: list_all_iff)
  show ?thesis
    using assms(1) by (simp add: unsigned_decimal_def nI tw exponent_part_def pow10_def digits_val_def)
qed

lemma signed_decimal_digit_start:
  assumes "s \<noteq> []" "is_digit_in 10 (hd s)"
  shows "signed_decimal s = unsigned_decimal s"
proof -
  have "\<not> startsWith s ''-''" "\<not> startsWith s ''+''"
    using assms digit_not_special(2,3)[of "hd s"] by (cases s; simp)+
  then show ?thesis by (simp add: signed_decimal_def)
qed

lemma Number_digits:
  assumes "ds \<noteq> []" "list_all (is_digit_in 10) ds"
  shows "Number ds = Fin (real (digits_val 10 ds))"
proof -
  have hl: "is_digit_in 10 (hd ds)" "is_digit_in 10 (last ds)" using assms by (rule digits_head_last)+
  have t: "trim ds = ds" using assms(1) hl digit_not_special(1) by (intro trim_id) auto
  have rp: "radix_prefix ds = None" using radix_prefix_digits[OF assms, of "[]"] by simp
  show ?thesis
    using assms(1)
    by (simp add: Number_def t rp signed_decimal_digit_start[OF assms(1) hl(1)] unsigned_decimal_digits[OF assms])
qed

lemma unsigned_decimal_point:
  assumes "ds \<noteq> []" "list_all (is_digit_in 10) ds" "fs \<noteq> []" "list_all (is_digit_in 10) fs"
  shows "unsigned_decimal (ds @ CHR ''.'' # fs) =
    Some (Fin (real (digits_val 10 ds) + real (digits_val 10 fs) / 10 ^ length fs), [])"
proof -
  have h: "is_digit_in 10 (hd ds)" using assms by (intro digits_head_last)
  have nI: "\<not> startsWith (ds @ CHR ''.'' # fs) ''Infinity''"
    using assms(1) h digit_not_special(4)[of "hd ds"] by (cases ds) auto
  have a: "\<And>x. x \<in> set ds \<Longrightarrow> is_digit_in 10 x" "\<And>x. x \<in> set fs \<Longrightarrow> is_digit_in 10 x"
    using assms by (auto simp: list_all_iff)
  have tw: "takeWhile (is_digit_in 10) (ds @ CHR ''.'' # fs) = ds"
    "dropWhile (is_digit_in 10) (ds @ CHR ''.'' # fs) = CHR ''.'' # fs"
    using a(1) by (simp_all add: takeWhile_append2 dropWhile_append2 dot_not_digit)
  have tw2: "takeWhile (is_digit_in 10) fs = fs" "dropWhile (is_digit_in 10) fs = []"
    using a(2) by auto
  show ?thesis
    unfolding unsigned_decimal_def Let_def tw
    using assms(1,3) nI by (simp add: tw2 exponent_part_def pow10_def)
qed

lemma Number_point:
  assumes "ds \<noteq> []" "list_all (is_digit_in 10) ds" "fs \<noteq> []" "list_all (is_digit_in 10) fs"
  shows "Number (ds @ CHR ''.'' # fs) = Fin (real (digits_val 10 ds) + real (digits_val 10 fs) / 10 ^ length fs)"
proof -
  let ?s = "ds @ CHR ''.'' # fs"
  have hl: "is_digit_in 10 (hd ds)" "is_digit_in 10 (last fs)" using assms by (auto intro: digits_head_last)
  have hd: "hd ?s = hd ds" using assms(1) by simp
  have la: "last ?s = last fs" using assms(3) by simp
  have ne: "?s \<noteq> []" by simp
  have t: "trim ?s = ?s"
    using hl digit_not_special(1) by (intro trim_id ne) (simp_all only: hd la, blast+)
  have rp: "radix_prefix ?s = None" using radix_prefix_digits[OF assms(1,2), of "CHR ''.'' # fs"] by simp
  have sd: "signed_decimal ?s = unsigned_decimal ?s"
    using hl(1) by (intro signed_decimal_digit_start ne) (simp only: hd)
  show ?thesis
    unfolding Number_def Let_def t rp sd unsigned_decimal_point[OF assms] by simp
qed

lemma Number_toFixed1_abs:
  assumes "0 \<le> x"
  shows "Number (toFixed1_abs x) = Fin (real_of_int \<lfloor>x * 10 + 1 / 2\<rfloor> / 10)"
proof -
  define n where "n = nat \<lfloor>x * 10 + 1 / 2\<rfloor>"
  have n: "real n = real_of_int \<lfloor>x * 10 + 1 / 2\<rfloor>" using assms by (simp add: n_def)
  have l: "length (show_nat (n mod 10)) = 1" by (subst show_nat.simps) simp
  have "Number (show_nat (n div 10) @ CHR ''.'' # show_nat (n mod 10)) =
      Fin (real (n div 10) + real (n mod 10) / 10)"
    using Number_point[OF show_nat_nonempty show_nat_digits show_nat_nonempty show_nat_digits, of "n div 10" "n mod 10"]
    by (simp add: digits_val_show_nat l)
  also have "real (n div 10) + real (n mod 10) / 10 = real n / 10"
  proof -
    have "real n = real (10 * (n div 10) + n mod 10)" by simp
    also have "\<dots> = 10 * real (n div 10) + real (n mod 10)" by (simp only: of_nat_add of_nat_mult of_nat_numeral)
    finally show ?thesis by simp
  qed
  finally show ?thesis by (simp add: toFixed1_abs_def n_def[symmetric] n Let_def)
qed


lemma show_real_of_nat: "show_real (real n) = show_nat n"
  by (simp add: show_real_def)

lemma Number_toString_nat: "Number_toString (Fin (real n)) = show_nat n"
  by (simp add: show_real_of_nat)

lemma Number_toString_int: "0 \<le> k \<Longrightarrow> Number_toString (Fin (of_int k)) = show_nat (nat k)"
  using Number_toString_nat[of "nat k"] by simp

lemma trunc_nonneg: "0 \<le> r \<Longrightarrow> trunc r = \<lfloor>r\<rfloor>"
  by (simp add: trunc_def)

subsection \<open>Times of day: \<open>minutesToTimeStr\<close> and \<open>timeToMinutes\<close>\<close>

lemma floor_div60: "0 \<le> (r::real) \<Longrightarrow> \<lfloor>r / 60\<rfloor> = int (nat \<lfloor>r\<rfloor> div 60)"
  using floor_divide_real_eq_div[of 60 r] by (simp add: zdiv_int)

lemma rem_nat: "real n - real b * real_of_int (trunc (real n / real b)) = real (n mod b)" if "0 < b"
proof -
  have "\<lfloor>real n / real b\<rfloor> = int n div int b"
    using floor_divide_real_eq_div[of "int b" "real n"] by simp
  then have t: "trunc (real n / real b) = int (n div b)"
    by (simp add: trunc_def zdiv_int)
  have "n = b * (n div b) + n mod b" by simp
  then have "real n = real (b * (n div b) + n mod b)" by (rule arg_cong)
  then have "real n = real b * real (n div b) + real (n mod b)"
    by (simp only: of_nat_add of_nat_mult)
  then show ?thesis unfolding t by simp
qed

lemma js_rem_nat: "0 < b \<Longrightarrow> js_rem (Fin (real n)) (Fin (real b)) = Fin (real (n mod b))"
  using rem_nat[of b n] by simp

lemma floor_rem60:
  assumes "0 \<le> (r::real)"
  shows "\<lfloor>r - 60 * real_of_int (trunc (r / 60))\<rfloor> = int (nat \<lfloor>r\<rfloor> mod 60)"
proof -
  define n where "n = nat \<lfloor>r\<rfloor>"
  have fl: "\<lfloor>r\<rfloor> = int n" using assms by (simp add: n_def)
  have t: "trunc (r / 60) = int (n div 60)"
    using assms floor_div60[OF assms] by (simp add: trunc_def n_def)
  have "\<lfloor>r - real_of_int (60 * int (n div 60))\<rfloor> = \<lfloor>r\<rfloor> - 60 * int (n div 60)"
    by (rule floor_diff_of_int)
  also have "\<dots> = int (n mod 60)"
    unfolding fl by (simp add: of_nat_mod zdiv_int minus_mult_div_eq_mod)
  finally show ?thesis unfolding t n_def by simp
qed


lemma minutesToTimeStr_nonneg:
  assumes "0 \<le> r"
  shows "minutesToTimeStr (Fin r) = show_hhmm (nat \<lfloor>r\<rfloor> mod 1440)"
proof -
  define n where "n = nat \<lfloor>r\<rfloor>"
  have h: "Math_floor (js_div (Fin r) (Fin 60)) = Fin (real (n div 60))"
    using floor_div60[OF assms] by (simp add: n_def)
  have m: "Math_floor (js_rem (Fin r) (Fin 60)) = Fin (real (n mod 60))"
    using floor_rem60[OF assms] by (simp add: n_def)
  have h24: "js_rem (Fin (real (n div 60))) (Fin 24) = Fin (real (n div 60 mod 24))"
    using js_rem_nat[of 24 "n div 60"] by simp
  have "n mod (60 * 24) = 60 * (n div 60 mod 24) + n mod 60"
    by (rule mod_mult2_eq)
  then have e: "n mod 1440 = 60 * (n div 60 mod 24) + n mod 60" by simp
  have d: "n div 60 mod 24 = n mod 1440 div 60" "n mod 60 = n mod 1440 mod 60"
    unfolding e by simp_all
  have "minutesToTimeStr (Fin r) = pad2 (n div 60 mod 24) @ '':'' @ pad2 (n mod 60)"
    unfolding minutesToTimeStr_def Let_def pad2_def h m h24 Number_toString_nat ..
  then show ?thesis unfolding show_hhmm_def n_def[symmetric] d .
qed


lemma split_no_sep: "c \<notin> set xs \<Longrightarrow> split c xs = [xs]"
  by (induction xs) auto

lemma split_append_sep: "c \<notin> set xs \<Longrightarrow> split c (xs @ c # ys) = xs # split c ys"
  by (induction xs) auto

lemma colon_not_digit: "\<not> is_digit_in 10 CHR '':''"
  by (simp add: is_digit_in_10_iff)

lemma digits_no_colon: "list_all (is_digit_in 10) ds \<Longrightarrow> CHR '':'' \<notin> set ds"
  using colon_not_digit by (auto simp: list_all_iff)

lemma wf_hhmm_shape:
  assumes "wf_hhmm s"
  shows "s = take 2 s @ CHR '':'' # drop 3 s"
proof -
  have "2 < length s" "s ! 2 = CHR '':''" using assms by (simp_all add: wf_hhmm_def)
  then show ?thesis using id_take_nth_drop[of 2 s] by simp
qed

lemma timeToMinutes_wf:
  assumes "wf_hhmm s"
  shows "timeToMinutes s = Fin (real (minutes_of_hhmm s))"
proof -
  let ?h = "take 2 s" and ?m = "drop 3 s"
  have dh: "list_all (is_digit_in 10) ?h" and dm: "list_all (is_digit_in 10) ?m"
    and ne: "?h \<noteq> []" "?m \<noteq> []" "s \<noteq> []"
    using assms by (auto simp: wf_hhmm_def)
  have "split CHR '':'' s = split CHR '':'' (?h @ CHR '':'' # ?m)"
    using wf_hhmm_shape[OF assms] by simp
  also have "\<dots> = [?h, ?m]"
    using digits_no_colon[OF dh] digits_no_colon[OF dm]
    by (simp add: split_append_sep split_no_sep)
  finally have sp: "split CHR '':'' s = [?h, ?m]" .
  show ?thesis
    unfolding timeToMinutes_def sp
    using ne(3) by (simp add: Number_digits[OF ne(1) dh] Number_digits[OF ne(2) dm] minutes_of_hhmm_def)
qed

lemma digit_char_ex: "is_digit_in 10 c \<Longrightarrow> \<exists>x<10. c = digit_char x"
proof -
  assume "is_digit_in 10 c"
  then have "c \<in> digit_char ` {0,1,2,3,4,5,6,7,8,9}"
    unfolding is_digit_in_10_iff by (simp add: digit_char_def)
  then obtain x where "x \<in> {0,1,2,3,4,5,6,7,8,9}" "c = digit_char x" by blast
  moreover from this have "x < 10" by auto
  ultimately show ?thesis by blast
qed

lemma pad2_two_digits:
  assumes "is_digit_in 10 a" "is_digit_in 10 b"
  shows "pad2 (digits_val 10 [a, b]) = [a, b]"
proof -
  obtain x y where x: "x < 10" "a = digit_char x" and y: "y < 10" "b = digit_char y"
    using assms digit_char_ex by blast
  have v: "digits_val 10 [a, b] = 10 * x + y"
    using x y by (simp add: digits_val_def digit_val_digit_char)
  show ?thesis
  proof (cases "x = 0")
    case True
    then have "show_nat (10 * x + y) = [b]" using y by (subst show_nat.simps) simp
    moreover have "a = CHR ''0''" using True x by (simp add: digit_char_def)
    ultimately show ?thesis unfolding v pad2_def by (simp add: padStart_def)
  next
    case False
    then have "show_nat (10 * x + y) = show_nat x @ [b]"
      using y by (subst show_nat.simps) simp
    also have "show_nat x = [a]" using x by (subst show_nat.simps) simp
    finally show ?thesis unfolding v pad2_def by (simp add: padStart_def)
  qed
qed

lemma list_len2: "length xs = 2 \<Longrightarrow> \<exists>a b. xs = [a, b]"
  by (cases xs; cases "tl xs") auto

lemma show_hhmm_wf:
  assumes "wf_hhmm s"
  shows "show_hhmm (minutes_of_hhmm s) = s"
proof -
  obtain a b where h: "take 2 s = [a, b]" using list_len2[of "take 2 s"] assms by (auto simp: wf_hhmm_def)
  obtain c d where m: "drop 3 s = [c, d]" using list_len2[of "drop 3 s"] assms by (auto simp: wf_hhmm_def)
  have dg: "is_digit_in 10 a" "is_digit_in 10 b" "is_digit_in 10 c" "is_digit_in 10 d"
    and lt: "digits_val 10 [c, d] < 60"
    using assms unfolding wf_hhmm_def h m by simp_all
  have "show_hhmm (digits_val 10 [a, b] * 60 + digits_val 10 [c, d]) = [a, b] @ '':'' @ [c, d]"
    unfolding show_hhmm_def using lt by (simp add: pad2_two_digits dg)
  then show ?thesis
    using wf_hhmm_shape[OF assms] unfolding minutes_of_hhmm_def h m by simp
qed

lemma minutes_of_hhmm_bound: "wf_hhmm s \<Longrightarrow> minutes_of_hhmm s < 1440"
  by (simp add: wf_hhmm_def minutes_of_hhmm_def)

lemma minutesToTimeStr_timeToMinutes:
  assumes "wf_hhmm s"
  shows "minutesToTimeStr (timeToMinutes s) = s"
  using minutesToTimeStr_nonneg[of "real (minutes_of_hhmm s)"] minutes_of_hhmm_bound[OF assms]
  by (simp add: timeToMinutes_wf[OF assms] show_hhmm_wf[OF assms])

subsection \<open>The loop over the stops of a day\<close>

lemma length_mapSpots: "length (mapSpots f idx cur xs) = length xs"
  by (induction xs arbitrary: idx cur) simp_all

lemma nth_mapSpots:
  "k < length xs \<Longrightarrow> mapSpots f idx cur xs ! k = fst (f (idx + k) (clock_at f idx cur xs k) (xs ! k))"
proof (induction xs arbitrary: idx cur k)
  case Nil
  then show ?case by simp
next
  case (Cons x xs)
  then show ?case by (cases k) simp_all
qed

lemma clock_at_Suc:
  "k < length xs \<Longrightarrow> clock_at f idx cur xs (Suc k) = snd (f (idx + k) (clock_at f idx cur xs k) (xs ! k))"
proof (induction xs arbitrary: idx cur k)
  case Nil
  then show ?case by simp
next
  case (Cons x xs)
  then show ?case by (cases k) simp_all
qed

lemma calcSpot_fields:
  "stop.truncate (fst (calcSpot ad st tm dy idx cur spot)) = spot"
  "id_field (fst (calcSpot ad st tm dy idx cur spot)) = mkSpotId (dayId dy) idx"
  "time (fst (calcSpot ad st tm dy idx cur spot)) = minutesToTimeStr cur"
  "stay (fst (calcSpot ad st tm dy idx cur spot)) = js_or (st (mkSpotId (dayId dy) idx)) ''1.5 hr''"
  "isDeparted (fst (calcSpot ad st tm dy idx cur spot)) = truthy (ad (mkSpotId (dayId dy) idx))"
  "actualDepTime (fst (calcSpot ad st tm dy idx cur spot)) =
     (if truthy (ad (mkSpotId (dayId dy) idx)) then ad (mkSpotId (dayId dy) idx) else None)"
  by (simp_all add: calcSpot_def departure_def Let_def stop.defs derived_stop.defs split: prod.splits)

lemma calcSpot_clock:
  "snd (calcSpot ad st tm dy idx cur spot) =
     (if idx < length (spots dy) - 1
      then js_add (fst (departure ad (mkSpotId (dayId dy) idx) (js_or (st (mkSpotId (dayId dy) idx)) ''1.5 hr'') cur))
             (travelMinutes_of
                (getDistanceFromLatLonInKm (lat spot) (lon spot) (lat (spots dy ! (idx + 1))) (lon (spots dy ! (idx + 1))))
                (js_or (tm (mkSpotId (dayId dy) idx)) ''car''))
      else cur)"
  by (simp add: calcSpot_def Let_def split: prod.splits)

lemma spots_calcDay:
  "spots (calcDay dst ad st tm dy) = mapSpots (calcSpot ad st tm dy) 0
     (timeToMinutes (js_or (dst (dayId dy)) ''09:00'')) (spots dy)"
  by (simp add: calcDay_def Let_def)

lemma nth_calcDay:
  assumes "k < length (spots dy)"
  shows "spots (calcDay dst ad st tm dy) ! k =
    fst (calcSpot ad st tm dy k (arrivalClock dst ad st tm dy k) (spots dy ! k))"
  using nth_mapSpots[OF assms, of "calcSpot ad st tm dy" 0] by (simp add: spots_calcDay arrivalClock_def)

lemma arrivalClock_0: "arrivalClock dst ad st tm dy 0 = timeToMinutes (js_or (dst (dayId dy)) ''09:00'')"
  by (simp add: arrivalClock_def)

lemma arrivalClock_Suc:
  assumes "Suc k < length (spots dy)"
  shows "arrivalClock dst ad st tm dy (Suc k) =
    js_add (effectiveDeparture dst ad st tm dy k) (legMinutes tm dy k)"
proof -
  have k: "k < length (spots dy)" "k < length (spots dy) - 1" using assms by simp_all
  show ?thesis
    unfolding arrivalClock_def clock_at_Suc[OF k(1)]
    using k(2) by (simp add: calcSpot_clock effectiveDeparture_def legMinutes_def arrivalClock_def)
qed

lemma time_calcDay:
  "k < length (spots dy) \<Longrightarrow> time (spots (calcDay dst ad st tm dy) ! k) = minutesToTimeStr (arrivalClock dst ad st tm dy k)"
  by (simp add: nth_calcDay calcSpot_fields)

subsection \<open>Distances and travel minutes\<close>

lemma haversine_a_range: "0 \<le> haversine_a lat1 lon1 lat2 lon2" "haversine_a lat1 lon1 lat2 lon2 \<le> 1"
proof -
  define p where "p = lat1 * (pi / 180)"
  define q where "q = lat2 * (pi / 180)"
  define v where "v = (lon2 - lon1) * (pi / 180) / 2"
  define s where "s = sin v * sin v"
  define c1 where "c1 = cos (q - p)"
  define c2 where "c2 = cos (p + q)"
  have s: "0 \<le> s" "s \<le> 1"
    unfolding s_def using sin_le_one[of v] sin_ge_minus_one[of v]
    by (simp, metis abs_sin_le_one abs_square_le_1 power2_eq_square)
  have c: "- 1 \<le> c1" "c1 \<le> 1" "- 1 \<le> c2" "c2 \<le> 1" by (simp_all add: c1_def c2_def)
  have u: "sin ((q - p) / 2) * sin ((q - p) / 2) = (1 - c1) / 2"
  proof -
    have "2 * ((q - p) / 2) = q - p" by simp
    then have "c1 = 1 - 2 * (sin ((q - p) / 2))\<^sup>2"
      using cos_double_sin[of "(q - p) / 2"] by (simp only: c1_def)
    then show ?thesis by (simp add: power2_eq_square)
  qed
  have cc: "cos p * cos q = (c1 + c2) / 2"
    using cos_times_cos[of p q] by (simp add: c1_def c2_def cos_diff cos_add)
  have dl: "(lat2 - lat1) * (pi / 180) / 2 = (q - p) / 2" by (simp add: p_def q_def left_diff_distrib)
  have a: "haversine_a lat1 lon1 lat2 lon2 = (1 - c1) / 2 + (c1 + c2) / 2 * s"
    unfolding haversine_a_def Let_def dl u p_def[symmetric] q_def[symmetric] v_def[symmetric] cc s_def
    by (simp add: algebra_simps)
  have "(1 - c1) / 2 + (c1 + c2) / 2 * s = (1 - s) * ((1 - c1) / 2) + s * ((1 + c2) / 2)"
    by (simp add: field_simps)
  moreover have "0 \<le> (1 - s) * ((1 - c1) / 2) + s * ((1 + c2) / 2)"
    using s c by (intro add_nonneg_nonneg mult_nonneg_nonneg) simp_all
  ultimately show "0 \<le> haversine_a lat1 lon1 lat2 lon2" unfolding a by simp
  have "1 - ((1 - c1) / 2 + (c1 + c2) / 2 * s) = (1 - s) * ((1 + c1) / 2) + s * ((1 - c2) / 2)"
    by (simp add: field_simps)
  moreover have "0 \<le> (1 - s) * ((1 + c1) / 2) + s * ((1 - c2) / 2)"
    using s c by (intro add_nonneg_nonneg mult_nonneg_nonneg) simp_all
  ultimately show "haversine_a lat1 lon1 lat2 lon2 \<le> 1" unfolding a by linarith
qed


lemma Math_atan2_nonneg: "0 \<le> y \<Longrightarrow> 0 \<le> x \<Longrightarrow> 0 \<le> Math_atan2 y x"
  by (simp add: Math_atan2_def zero_le_arctan_iff)

lemma haversine_km_nonneg: "0 \<le> haversine_km lat1 lon1 lat2 lon2"
  using haversine_a_range[of lat1 lon1 lat2 lon2]
  by (simp add: haversine_km_def Let_def Math_atan2_nonneg)

lemma Number_getDistance:
  "Number (getDistanceFromLatLonInKm lat1 lon1 lat2 lon2) = Fin (rounded_km lat1 lon1 lat2 lon2)"
  using haversine_km_nonneg[of lat1 lon1 lat2 lon2]
  by (simp add: getDistanceFromLatLonInKm_def Number_toFixed1_abs rounded_km_def)

lemma rounded_km_nonneg: "0 \<le> rounded_km lat1 lon1 lat2 lon2"
  using haversine_km_nonneg[of lat1 lon1 lat2 lon2] by (simp add: rounded_km_def)

lemma travelMinutes_car:
  "travelMinutes_of (getDistanceFromLatLonInKm lat1 lon1 lat2 lon2) ''car'' =
     Fin (real (nat \<lfloor>rounded_km lat1 lon1 lat2 lon2 / 40 * 60 + 1 / 2\<rfloor> + 10))"
proof -
  have "0 \<le> \<lfloor>rounded_km lat1 lon1 lat2 lon2 / 40 * 60 + 1 / 2\<rfloor>"
    using rounded_km_nonneg[of lat1 lon1 lat2 lon2] by simp
  then show ?thesis
    by (simp add: travelMinutes_of_def Number_getDistance)
qed




subsection \<open>The example inputs\<close>

lemma mkSpotId_day1: "mkSpotId ''day1'' 0 = ''day1-s0''" "mkSpotId ''day1'' 1 = ''day1-s1''"
  by code_simp+

lemma mkSpotId_day2: "mkSpotId ''day2'' 0 = ''day2-s0''" "mkSpotId ''day2'' 1 = ''day2-s1''"
  by code_simp+

lemma day1_simps: "dayId day1 = ''day1''" "spots day1 = [stopA, stopB]" "length (spots day1) = 2"
  by (simp_all add: day1_def)

lemma day2_simps: "dayId day2 = ''day2''" "spots day2 = [stopA, stopA]" "length (spots day2) = 2"
  by (simp_all add: day2_def)

lemma parseStay_default: "parseStayDuration ''1.5 hr'' = Fin 90"
  by code_simp

lemma mkSpotId_Suc0: "mkSpotId ''day1'' (Suc 0) = ''day1-s1''" "mkSpotId ''day2'' (Suc 0) = ''day2-s1''"
  using mkSpotId_day1(2) mkSpotId_day2(2) by simp_all

lemma wf_1015: "wf_hhmm ''10:15''"
  by code_simp

lemma arrival_day1_0: "arrivalClock Map.empty ad st tm day1 0 = Fin 540"
  unfolding arrivalClock_0 by code_simp

subsection \<open>Departures, frame and memoisation\<close>

lemma effectiveDeparture_override:
  assumes "ad (mkSpotId (dayId dy) k) = Some v" "v \<noteq> []"
  shows "effectiveDeparture dst ad st tm dy k = timeToMinutes v"
  using assms by (simp add: effectiveDeparture_def departure_def truthy_def js_or_def)

lemma effectiveDeparture_no_override:
  assumes "\<not> truthy (ad (mkSpotId (dayId dy) k))"
  shows "effectiveDeparture dst ad st tm dy k =
    js_add (arrivalClock dst ad st tm dy k) (parseStayDuration (js_or (st (mkSpotId (dayId dy) k)) ''1.5 hr''))"
  using assms by (simp add: effectiveDeparture_def departure_def)

lemma length_itinerary: "length (itinerary (Some days) dst ad st tm) = length days"
  by (simp add: itinerary_def)

lemma nth_itinerary:
  "i < length days \<Longrightarrow> itinerary (Some days) dst ad st tm ! i = calcDay dst ad st tm (days ! i)"
  by (simp add: itinerary_def)

lemma calcDay_frame:
  "dayId (calcDay dst ad st tm dy) = dayId dy"
  "title (calcDay dst ad st tm dy) = title dy"
  "length (spots (calcDay dst ad st tm dy)) = length (spots dy)"
  by (simp_all add: calcDay_def Let_def length_mapSpots)

lemma truncate_fields:
  "name (stop.truncate r) = name r" "lat (stop.truncate r) = lat r" "lon (stop.truncate r) = lon r"
  "ticket (stop.truncate r) = ticket r" "mapCode (stop.truncate r) = mapCode r" "desc (stop.truncate r) = desc r"
  by (simp_all add: stop.truncate_def)



subsection \<open>The running clock stays a number of minutes\<close>

lemma legMinutes_car:
  assumes "js_or (tm (mkSpotId (dayId dy) k)) ''car'' = ''car''"
  shows "legMinutes tm dy k = Fin (real (driveMinutes (legKm dy k)))"
  unfolding legMinutes_def assms travelMinutes_car driveMinutes_def legKm_def ..















lemma js_add_NaN_right: "js_add x NaN = NaN"
  by (cases x) simp_all

lemma timeToMinutes_NaN_part:
  assumes "t \<noteq> []" "split CHR '':'' t = h # m # rest" "Number h = NaN \<or> Number m = NaN"
  shows "timeToMinutes t = NaN"
  using assms by (auto simp: timeToMinutes_def js_add_NaN_right)

lemma timeToMinutes_no_colon:
  assumes "t \<noteq> []" "CHR '':'' \<notin> set t"
  shows "timeToMinutes t = NaN"
  using assms by (simp add: timeToMinutes_def split_no_sep)

lemma start_default: "\<not> truthy x \<Longrightarrow> timeToMinutes (js_or x ''09:00'') = Fin 540"
proof -
  assume "\<not> truthy x"
  then have "js_or x ''09:00'' = ''09:00''" by (cases x) (auto simp: truthy_def js_or_def)
  moreover have "timeToMinutes ''09:00'' = Fin 540" by code_simp
  ultimately show ?thesis by simp
qed

lemma NaN_carries_over:
  assumes "Suc k < length (spots dy)" "arrivalClock dst ad st tm dy k = NaN"
    "\<not> truthy (ad (mkSpotId (dayId dy) k))"
  shows "arrivalClock dst ad st tm dy (Suc k) = NaN"
  using assms by (simp add: arrivalClock_Suc effectiveDeparture_no_override)

subsection \<open>Evaluations on the example days\<close>




lemma start_0830: "arrivalClock [''day2'' \<mapsto> ''08:30''] ad st tm day2 0 = Fin 510"
  unfolding arrivalClock_0 day2_simps by code_simp





lemma NaN_display: "minutesToTimeStr NaN = ''NaN:NaN''"
  by code_simp

lemma not_wf_NaN: "\<not> wf_hhmm ''NaN:NaN''"
  by (simp add: wf_hhmm_def)




lemma Number_abcd: "Number ''ab'' = NaN" "split CHR '':'' ''ab:cd'' = [''ab'', ''cd'']"
  by code_simp+

lemma start_abcd: "arrivalClock [''day1'' \<mapsto> ''ab:cd''] ad st tm day1 0 = NaN"
  unfolding arrivalClock_0 day1_simps by code_simp

subsection \<open>Bounds for cosine, sine and pi\<close>

lemma lessThan_8: "{..<8::nat} = {0,1,2,3,4,5,6,7}" by auto
lemma lessThan_14: "{..<14::nat} = {0,1,2,3,4,5,6,7,8,9,10,11,12,13}" by (auto; arith)
lemma lessThan_3: "{..<3::nat} = {0,1,2}" by auto

lemma cos_sum8: "(\<Sum>m<8. cos_coeff m * x ^ m) = 1 - x\<^sup>2 / 2 + x ^ 4 / 24 - x ^ 6 / 720"
  unfolding lessThan_8 by (simp add: cos_coeff_def fact_numeral)

lemma cos_sum14:
  "(\<Sum>m<14. cos_coeff m * x ^ m) =
     1 - x\<^sup>2 / 2 + x ^ 4 / 24 - x ^ 6 / 720 + x ^ 8 / 40320 - x ^ 10 / 3628800 + x ^ 12 / 479001600"
  unfolding lessThan_14 by (simp add: cos_coeff_def fact_numeral)

lemma sin_sum3: "(\<Sum>m<3. sin_coeff m * x ^ m) = x"
  unfolding lessThan_3 by (simp add: sin_coeff_def fact_numeral)

lemma fact_8: "fact 8 = (40320 :: real)" by (simp add: fact_numeral)
lemma fact_14: "fact 14 = (87178291200 :: real)" by (simp add: fact_numeral)

lemma cos_Maclaurin_bound: "\<bar>cos x - (\<Sum>m<n. cos_coeff m * x ^ m)\<bar> \<le> \<bar>x\<bar> ^ n / fact n"
proof -
  obtain t where t: "cos x = (\<Sum>m<n. cos_coeff m * x ^ m) + (cos (t + 1/2 * real n * pi) / fact n) * x ^ n"
    using Maclaurin_cos_expansion[of x n] by blast
  have "\<bar>cos x - (\<Sum>m<n. cos_coeff m * x ^ m)\<bar> = \<bar>cos (t + 1/2 * real n * pi)\<bar> * (\<bar>x\<bar> ^ n / fact n)"
    unfolding t by (simp add: abs_mult power_abs)
  also have "\<dots> \<le> 1 * (\<bar>x\<bar> ^ n / fact n)"
    by (rule mult_right_mono) simp_all
  finally show ?thesis by simp
qed

lemma cos_poly6:
  fixes x :: real
  shows "1 - x\<^sup>2 / 2 + x ^ 4 / 24 - x ^ 6 / 720 - x ^ 8 / 40320 \<le> cos x"
    and "cos x \<le> 1 - x\<^sup>2 / 2 + x ^ 4 / 24 - x ^ 6 / 720 + x ^ 8 / 40320"
proof -
  have "\<bar>x\<bar> ^ 8 = x ^ 8" by (simp add: power_even_abs)
  then have "\<bar>cos x - (1 - x\<^sup>2 / 2 + x ^ 4 / 24 - x ^ 6 / 720)\<bar> \<le> x ^ 8 / 40320"
    using cos_Maclaurin_bound[of x 8] by (simp only: cos_sum8 fact_8)
  then show "1 - x\<^sup>2 / 2 + x ^ 4 / 24 - x ^ 6 / 720 - x ^ 8 / 40320 \<le> cos x"
    and "cos x \<le> 1 - x\<^sup>2 / 2 + x ^ 4 / 24 - x ^ 6 / 720 + x ^ 8 / 40320"
    by linarith+
qed

lemma cos_poly12:
  fixes x :: real
  shows "\<bar>cos x - (1 - x\<^sup>2 / 2 + x ^ 4 / 24 - x ^ 6 / 720 + x ^ 8 / 40320 - x ^ 10 / 3628800 + x ^ 12 / 479001600)\<bar>
     \<le> x ^ 14 / 87178291200"
proof -
  have "\<bar>x\<bar> ^ 14 = x ^ 14" by (simp add: power_even_abs)
  then show ?thesis
    using cos_Maclaurin_bound[of x 14] by (simp only: cos_sum14 fact_14)
qed

lemma sin_lower_cubic:
  fixes x :: real
  assumes x: "0 \<le> x"
  shows "x - x ^ 3 / 6 \<le> sin x"
proof -
  have "inverse (fact 3) * \<bar>x\<bar> ^ 3 = x ^ 3 / 6"
    using x by (simp add: fact_numeral)
  then have "\<bar>sin x - x\<bar> \<le> x ^ 3 / 6"
    using Maclaurin_sin_bound[of x 3] by (simp only: sin_sum3)
  then show ?thesis by linarith
qed

lemma cos_pos_157079: "0 < cos (157079 / 100000 :: real)"
proof -
  let ?x = "157079 / 100000 :: real"
  have "(1 - ?x\<^sup>2 / 2 + ?x ^ 4 / 24 - ?x ^ 6 / 720 + ?x ^ 8 / 40320 - ?x ^ 10 / 3628800 + ?x ^ 12 / 479001600)
      - ?x ^ 14 / 87178291200 > 0" by (simp add: power_divide)
  then show ?thesis using cos_poly12[of ?x] by linarith
qed

lemma cos_neg_15708: "cos (15708 / 10000 :: real) < 0"
proof -
  let ?x = "15708 / 10000 :: real"
  have "(1 - ?x\<^sup>2 / 2 + ?x ^ 4 / 24 - ?x ^ 6 / 720 + ?x ^ 8 / 40320 - ?x ^ 10 / 3628800 + ?x ^ 12 / 479001600)
      + ?x ^ 14 / 87178291200 < 0" by (simp add: power_divide)
  then show ?thesis using cos_poly12[of ?x] by linarith
qed

lemma pi_bounds: "314158 / 100000 < pi" "pi < 31416 / 10000"
proof -
  have "157079 / 100000 < pi / 2"
  proof (rule ccontr)
    assume "\<not> 157079 / 100000 < pi / 2"
    then have "pi / 2 \<le> 157079 / 100000" by simp
    moreover have "(157079 / 100000 :: real) \<le> pi" using pi_ge_two by linarith
    ultimately have "cos (157079 / 100000) \<le> cos (pi / 2)"
      by (intro cos_monotone_0_pi_le) simp_all
    then show False using cos_pos_157079 by simp
  qed
  then show "314158 / 100000 < pi" by simp
  have "pi / 2 < 15708 / 10000"
  proof (rule ccontr)
    assume "\<not> pi / 2 < 15708 / 10000"
    then have "15708 / 10000 \<le> pi / 2" by simp
    then have "0 \<le> cos (15708 / 10000 :: real)" by (intro cos_ge_zero) simp_all
    then show False using cos_neg_15708 by simp
  qed
  then show "pi < 31416 / 10000" by simp
qed

subsection \<open>The distance between the two stops of the scenario\<close>

lemma atan2_sqrt:
  assumes "0 \<le> a" "a < 1"
  shows "sin (Math_atan2 (sqrt a) (sqrt (1 - a))) = sqrt a"
    and "0 \<le> Math_atan2 (sqrt a) (sqrt (1 - a))"
    and "Math_atan2 (sqrt a) (sqrt (1 - a)) < pi / 2"
proof -
  let ?t = "sqrt a / sqrt (1 - a)"
  have pos: "0 < sqrt (1 - a)" using assms by simp
  then have eq: "Math_atan2 (sqrt a) (sqrt (1 - a)) = arctan ?t" by (simp add: Math_atan2_def)
  have "1 + ?t\<^sup>2 = 1 / (1 - a)"
    using assms by (simp add: power_divide field_simps)
  then have "sqrt (1 + ?t\<^sup>2) = 1 / sqrt (1 - a)" by (simp add: real_sqrt_divide)
  then have "sin (arctan ?t) = ?t * sqrt (1 - a)" by (simp add: sin_arctan)
  then show "sin (Math_atan2 (sqrt a) (sqrt (1 - a))) = sqrt a" using pos by (simp add: eq)
  show "0 \<le> Math_atan2 (sqrt a) (sqrt (1 - a))"
    using assms by (simp add: eq zero_le_arctan_iff)
  show "Math_atan2 (sqrt a) (sqrt (1 - a)) < pi / 2"
    unfolding eq by (rule arctan_ubound)
qed

lemma atan2_sqrt_lower:
  assumes "0 \<le> a" "a < 1" "0 \<le> l" "l \<le> pi / 2" "l\<^sup>2 \<le> a"
  shows "l \<le> Math_atan2 (sqrt a) (sqrt (1 - a))"
proof (rule ccontr)
  let ?th = "Math_atan2 (sqrt a) (sqrt (1 - a))"
  assume "\<not> l \<le> ?th"
  then have "?th < l" by simp
  moreover have "- (pi / 2) \<le> ?th" using atan2_sqrt(2)[OF assms(1,2)] pi_ge_zero by linarith
  ultimately have "sin ?th < sin l" using assms(4) by (intro sin_monotone_2pi)
  then have "sqrt a < sin l" by (simp add: atan2_sqrt(1)[OF assms(1,2)])
  also have "sin l \<le> l" using assms(3) by (rule sin_x_le_x)
  finally have "sqrt a < l" .
  then have "(sqrt a)\<^sup>2 < l\<^sup>2" using assms(1) by (intro power_strict_mono) simp_all
  then show False using assms(1,5) by simp
qed

lemma atan2_sqrt_upper:
  assumes "0 \<le> a" "a < 1" "0 \<le> h" "h \<le> pi / 2" "0 \<le> h - h ^ 3 / 6" "a < (h - h ^ 3 / 6)\<^sup>2"
  shows "Math_atan2 (sqrt a) (sqrt (1 - a)) < h"
proof (rule ccontr)
  let ?th = "Math_atan2 (sqrt a) (sqrt (1 - a))"
  assume "\<not> ?th < h"
  then have "h \<le> ?th" by simp
  moreover have "?th \<le> pi / 2" using atan2_sqrt(3)[OF assms(1,2)] by simp
  moreover have "- (pi / 2) \<le> h" using assms(3) pi_ge_zero by linarith
  ultimately have "sin h \<le> sin ?th" by (intro sin_monotone_2pi_le)
  then have "sin h \<le> sqrt a" by (simp add: atan2_sqrt(1)[OF assms(1,2)])
  moreover have "h - h ^ 3 / 6 \<le> sin h" using assms(3) by (rule sin_lower_cubic)
  ultimately have "h - h ^ 3 / 6 \<le> sqrt a" by linarith
  then have "(h - h ^ 3 / 6)\<^sup>2 \<le> (sqrt a)\<^sup>2" using assms(5) by (intro power_mono)
  then show False using assms(1,6) by simp
qed

lemma sin_sq_bounds:
  fixes x :: real
  assumes "0 \<le> l" "l \<le> x" "x \<le> h" "h \<le> 1" "0 \<le> l - h ^ 3 / 6"
  shows "(l - h ^ 3 / 6)\<^sup>2 \<le> sin x * sin x" "sin x * sin x \<le> h\<^sup>2"
proof -
  have x0: "0 \<le> x" using assms by linarith
  have "x ^ 3 \<le> h ^ 3" using x0 assms(3) by (intro power_mono)
  then have "l - h ^ 3 / 6 \<le> x - x ^ 3 / 6" using assms(2) by linarith
  also have "\<dots> \<le> sin x" using x0 by (rule sin_lower_cubic)
  finally have lo: "l - h ^ 3 / 6 \<le> sin x" .
  then have "(l - h ^ 3 / 6)\<^sup>2 \<le> (sin x)\<^sup>2" using assms(5) by (intro power_mono)
  then show "(l - h ^ 3 / 6)\<^sup>2 \<le> sin x * sin x" by (simp add: power2_eq_square)
  have s0: "0 \<le> sin x" using lo assms(5) by linarith
  have "sin x \<le> h" using sin_x_le_x[OF x0] assms(3) by linarith
  then have "(sin x)\<^sup>2 \<le> h\<^sup>2" using s0 by (intro power_mono)
  then show "sin x * sin x \<le> h\<^sup>2" by (simp add: power2_eq_square)
qed

lemma cos_interval:
  fixes x :: real
  assumes "0 \<le> l" "l \<le> x" "x \<le> h" "h \<le> 2"
  shows "1 - h\<^sup>2 / 2 + h ^ 4 / 24 - h ^ 6 / 720 - h ^ 8 / 40320 \<le> cos x"
    and "cos x \<le> 1 - l\<^sup>2 / 2 + l ^ 4 / 24 - l ^ 6 / 720 + l ^ 8 / 40320"
proof -
  have hp: "h \<le> pi" using assms(4) pi_ge_two by linarith
  have "cos h \<le> cos x" using assms hp by (intro cos_monotone_0_pi_le) linarith+
  then show "1 - h\<^sup>2 / 2 + h ^ 4 / 24 - h ^ 6 / 720 - h ^ 8 / 40320 \<le> cos x"
    using cos_poly6(1)[of h] by linarith
  have "cos x \<le> cos l" using assms hp by (intro cos_monotone_0_pi_le) linarith+
  then show "cos x \<le> 1 - l\<^sup>2 / 2 + l ^ 4 / 24 - l ^ 6 / 720 + l ^ 8 / 40320"
    using cos_poly6(2)[of l] by linarith
qed


lemma haversine_a_AB:
  "21078347 / 10 ^ 14 \<le> haversine_a (lat stopA) (lon stopA) (lat stopB) (lon stopB)"
  "haversine_a (lat stopA) (lon stopA) (lat stopB) (lon stopB) \<le> 217635 / 10 ^ 12"
proof -
  define U where "U = 309 / 10000 * (pi / 180) / 2"
  define V where "V = 537 / 10000 * (pi / 180) / 2"
  define p where "p = 356895 / 10000 * (pi / 180)"
  define q where "q = 356586 / 10000 * (pi / 180)"
  have a: "haversine_a (lat stopA) (lon stopA) (lat stopB) (lon stopB) =
      sin U * sin U + cos p * cos q * (sin V * sin V)"
  proof -
    have "(356586 / 10000 - 356895 / 10000) * (pi / 180) / 2 = - U"
      "(1397454 / 10000 - 1396917 / 10000) * (pi / 180) / 2 = V"
      by (simp_all add: U_def V_def)
    then show ?thesis
      by (simp add: haversine_a_def stopA_def stopB_def p_def q_def)
  qed
  note pb = pi_bounds
  have U: "1348261 / 5000000000 \<le> U" "U \<le> 134827 / 500000000"
    using pb by (simp_all add: U_def)
  have V: "468619 / 1000000000 \<le> V" "V \<le> 234311 / 500000000"
    using pb by (simp_all add: V_def)
  have P: "6228967 / 10000000 \<le> p" "p \<le> 389313 / 625000"
    using pb by (simp_all add: p_def)
  have Q: "3111787 / 5000000 \<le> q" "q \<le> 1244723 / 2000000"
    using pb by (simp_all add: q_def)
  have sU: "(2696521 / 10000000000)\<^sup>2 \<le> sin U * sin U" "sin U * sin U \<le> (134827 / 500000000)\<^sup>2"
  proof -
    have "(1348261 / 5000000000 - (134827 / 500000000) ^ 3 / 6)\<^sup>2 \<le> sin U * sin U"
      by (rule sin_sq_bounds(1)[OF _ U]) (simp_all add: power_divide)
    moreover have "(2696521 / 10000000000 :: real) \<le> 1348261 / 5000000000 - (134827 / 500000000) ^ 3 / 6"
      by (simp add: power_divide)
    then have "(2696521 / 10000000000 :: real)\<^sup>2 \<le> (1348261 / 5000000000 - (134827 / 500000000) ^ 3 / 6)\<^sup>2"
      by (intro power_mono) simp_all
    ultimately show "(2696521 / 10000000000)\<^sup>2 \<le> sin U * sin U" by linarith
    show "sin U * sin U \<le> (134827 / 500000000)\<^sup>2"
      by (rule sin_sq_bounds(2)[OF _ U]) (simp_all add: power_divide)
  qed
  have sV: "(4686189 / 10000000000)\<^sup>2 \<le> sin V * sin V" "sin V * sin V \<le> (234311 / 500000000)\<^sup>2"
  proof -
    have "(468619 / 1000000000 - (234311 / 500000000) ^ 3 / 6)\<^sup>2 \<le> sin V * sin V"
      by (rule sin_sq_bounds(1)[OF _ V]) (simp_all add: power_divide)
    moreover have "(4686189 / 10000000000 :: real) \<le> 468619 / 1000000000 - (234311 / 500000000) ^ 3 / 6"
      by (simp add: power_divide)
    then have "(4686189 / 10000000000 :: real)\<^sup>2 \<le> (468619 / 1000000000 - (234311 / 500000000) ^ 3 / 6)\<^sup>2"
      by (intro power_mono) simp_all
    ultimately show "(4686189 / 10000000000)\<^sup>2 \<le> sin V * sin V" by linarith
    show "sin V * sin V \<le> (234311 / 500000000)\<^sup>2"
      by (rule sin_sq_bounds(2)[OF _ V]) (simp_all add: power_divide)
  qed
  have cp: "2030471 / 2500000 \<le> cos p" "cos p \<le> 25381 / 31250"
  proof -
    have "(2030471 / 2500000 :: real) \<le> 1 - (389313 / 625000)\<^sup>2 / 2 + (389313 / 625000) ^ 4 / 24
        - (389313 / 625000) ^ 6 / 720 - (389313 / 625000) ^ 8 / 40320"
      by (simp add: power_divide)
    then show "2030471 / 2500000 \<le> cos p"
      using cos_interval(1)[OF _ P] by simp
    have "1 - (6228967 / 10000000)\<^sup>2 / 2 + (6228967 / 10000000) ^ 4 / 24
        - (6228967 / 10000000) ^ 6 / 720 + (6228967 / 10000000) ^ 8 / 40320 \<le> (25381 / 31250 :: real)"
      by (simp add: power_divide)
    then show "cos p \<le> 25381 / 31250"
      using cos_interval(2)[OF _ P] by simp
  qed
  have cq: "8125029 / 10000000 \<le> cos q" "cos q \<le> 1625013 / 2000000"
  proof -
    have "(8125029 / 10000000 :: real) \<le> 1 - (1244723 / 2000000)\<^sup>2 / 2 + (1244723 / 2000000) ^ 4 / 24
        - (1244723 / 2000000) ^ 6 / 720 - (1244723 / 2000000) ^ 8 / 40320"
      by (simp add: power_divide)
    then show "8125029 / 10000000 \<le> cos q"
      using cos_interval(1)[OF _ Q] by simp
    have "1 - (3111787 / 5000000)\<^sup>2 / 2 + (3111787 / 5000000) ^ 4 / 24
        - (3111787 / 5000000) ^ 6 / 720 + (3111787 / 5000000) ^ 8 / 40320 \<le> (1625013 / 2000000 :: real)"
      by (simp add: power_divide)
    then show "cos q \<le> 1625013 / 2000000"
      using cos_interval(2)[OF _ Q] by simp
  qed
  have cpq_lo: "2030471 / 2500000 * (8125029 / 10000000) \<le> cos p * cos q"
    using cp(1) cq(1) by (intro mult_mono) simp_all
  have cpq_hi: "cos p * cos q \<le> 25381 / 31250 * (1625013 / 2000000)"
    using cp cq by (intro mult_mono) simp_all
  have cpq0: "0 \<le> cos p * cos q" using cpq_lo by simp
  have sV0: "0 \<le> sin V * sin V" by simp
  have lo: "2030471 / 2500000 * (8125029 / 10000000) * (4686189 / 10000000000)\<^sup>2
      \<le> cos p * cos q * (sin V * sin V)"
    by (rule mult_mono[OF cpq_lo sV(1) cpq0]) simp
  have hi: "cos p * cos q * (sin V * sin V)
      \<le> 25381 / 31250 * (1625013 / 2000000) * (234311 / 500000000)\<^sup>2"
    by (rule mult_mono[OF cpq_hi sV(2)]) simp_all
  have "(21078347 / 10 ^ 14 :: real) \<le> (2696521 / 10000000000)\<^sup>2 +
      2030471 / 2500000 * (8125029 / 10000000) * (4686189 / 10000000000)\<^sup>2"
    by (simp add: power_divide)
  then show "21078347 / 10 ^ 14 \<le> haversine_a (lat stopA) (lon stopA) (lat stopB) (lon stopB)"
    unfolding a using sU(1) lo by linarith
  have "(134827 / 500000000)\<^sup>2 + 25381 / 31250 * (1625013 / 2000000) * (234311 / 500000000)\<^sup>2
      \<le> (217635 / 10 ^ 12 :: real)"
    by (simp add: power_divide)
  then show "haversine_a (lat stopA) (lon stopA) (lat stopB) (lon stopB) \<le> 217635 / 10 ^ 12"
    unfolding a using sU(2) hi by linarith
qed


lemma haversine_km_window:
  assumes "0 \<le> a" "a < 1" "0 \<le> l" "l \<le> 1" "l\<^sup>2 \<le> a"
    "0 \<le> h" "h \<le> 1" "0 \<le> h - h ^ 3 / 6" "a < (h - h ^ 3 / 6)\<^sup>2"
  shows "12742 * l \<le> 6371 * (2 * Math_atan2 (sqrt a) (sqrt (1 - a)))"
    and "6371 * (2 * Math_atan2 (sqrt a) (sqrt (1 - a))) < 12742 * h"
proof -
  have p: "1 \<le> pi / 2" using pi_ge_two by simp
  have "l \<le> Math_atan2 (sqrt a) (sqrt (1 - a))"
    using assms p by (intro atan2_sqrt_lower) linarith+
  then show "12742 * l \<le> 6371 * (2 * Math_atan2 (sqrt a) (sqrt (1 - a)))" by simp
  have "Math_atan2 (sqrt a) (sqrt (1 - a)) < h"
    using assms p by (intro atan2_sqrt_upper) linarith+
  then show "6371 * (2 * Math_atan2 (sqrt a) (sqrt (1 - a))) < 12742 * h" by simp
qed

lemma haversine_km_AB:
  "585 / 100 \<le> haversine_km (lat stopA) (lon stopA) (lat stopB) (lon stopB)"
  "haversine_km (lat stopA) (lon stopA) (lat stopB) (lon stopB) < 595 / 100"
proof -
  let ?a = "haversine_a (lat stopA) (lon stopA) (lat stopB) (lon stopB)"
  have a0: "0 \<le> ?a" by (rule haversine_a_range)
  have a1: "?a < 1" using haversine_a_AB(2) by (simp add: power_divide) 
  have l: "(585 / 1274200 :: real)\<^sup>2 \<le> ?a"
  proof -
    have "(585 / 1274200 :: real)\<^sup>2 \<le> 21078347 / 10 ^ 14" by (simp add: power_divide)
    then show ?thesis using haversine_a_AB(1) by linarith
  qed
  have h: "?a < (595 / 1274200 - (595 / 1274200) ^ 3 / 6 :: real)\<^sup>2"
  proof -
    have "(217635 / 10 ^ 12 :: real) < (595 / 1274200 - (595 / 1274200) ^ 3 / 6)\<^sup>2"
      by (simp add: power_divide power2_eq_square)
    then show ?thesis using haversine_a_AB(2) by linarith
  qed
  have w: "12742 * (585 / 1274200) \<le> 6371 * (2 * Math_atan2 (sqrt ?a) (sqrt (1 - ?a)))"
    "6371 * (2 * Math_atan2 (sqrt ?a) (sqrt (1 - ?a))) < 12742 * (595 / 1274200)"
    by (rule haversine_km_window[OF a0 a1 _ _ l _ _ _ h]; simp add: power_divide)+
  show "585 / 100 \<le> haversine_km (lat stopA) (lon stopA) (lat stopB) (lon stopB)"
    using w(1) by (simp add: haversine_km_def Let_def)
  show "haversine_km (lat stopA) (lon stopA) (lat stopB) (lon stopB) < 595 / 100"
    using w(2) by (simp add: haversine_km_def Let_def)
qed

lemma rounded_km_AB: "rounded_km (lat stopA) (lon stopA) (lat stopB) (lon stopB) = 59 / 10"
proof -
  have "\<lfloor>haversine_km (lat stopA) (lon stopA) (lat stopB) (lon stopB) * 10 + 1 / 2\<rfloor> = 59"
    using haversine_km_AB by (intro floor_unique) simp_all
  then show ?thesis by (simp add: rounded_km_def)
qed

lemma show_59: "show_nat (59 div 10) @ ''.'' @ show_nat (59 mod 10) = ''5.9''"
  by code_simp

lemma distance_AB: "getDistanceFromLatLonInKm (lat stopA) (lon stopA) (lat stopB) (lon stopB) = ''5.9''"
proof -
  have f: "\<lfloor>haversine_km (lat stopA) (lon stopA) (lat stopB) (lon stopB) * 10 + 1 / 2\<rfloor> = 59"
    using haversine_km_AB by (intro floor_unique) simp_all
  have "0 \<le> haversine_km (lat stopA) (lon stopA) (lat stopB) (lon stopB)"
    by (rule haversine_km_nonneg)
  then show ?thesis
    using show_59 by (simp add: getDistanceFromLatLonInKm_def toFixed1_abs_def f)
qed

lemma legKm_day1: "legKm day1 0 = 59 / 10"
  by (simp add: legKm_def day1_simps rounded_km_AB)

lemma minutes_59: "driveMinutes (59 / 10) = 19" "walkMinutes (59 / 10) = 89"
  by (simp_all add: driveMinutes_def walkMinutes_def)

subsection \<open>The next-stop record and the scenario\<close>

lemma calcSpot_next:
  assumes "idx < length (spots dy) - 1"
  shows "nextStop (fst (calcSpot ad st tm dy idx cur spot)) =
      Some (mkNextStopInfo spot (spots dy ! (idx + 1))
        (getDistanceFromLatLonInKm (lat spot) (lon spot) (lat (spots dy ! (idx + 1))) (lon (spots dy ! (idx + 1))))
        (js_or (tm (mkSpotId (dayId dy) idx)) ''car''))"
    and "nextArrivalTime (fst (calcSpot ad st tm dy idx cur spot)) =
      minutesToTimeStr (snd (calcSpot ad st tm dy idx cur spot))"
  using assms by (simp_all add: calcSpot_def Let_def stop.defs derived_stop.defs split: prod.splits)

lemma mkNextStopInfo_times:
  "driveTime (mkNextStopInfo spot nxt (getDistanceFromLatLonInKm la lo la' lo') mode) =
     formatDuration (Fin (real (driveMinutes (rounded_km la lo la' lo'))))"
  "walkTime (mkNextStopInfo spot nxt (getDistanceFromLatLonInKm la lo la' lo') mode) =
     formatDuration (Fin (real (walkMinutes (rounded_km la lo la' lo'))))"
  "distance (mkNextStopInfo spot nxt distKm mode) = distKm @ '' km''"
proof -
  have d: "0 \<le> \<lfloor>rounded_km la lo la' lo' / 40 * 60 + 1 / 2\<rfloor>"
    and w: "0 \<le> \<lfloor>rounded_km la lo la' lo' / 4 * 60 + 1 / 2\<rfloor>"
    using rounded_km_nonneg[of la lo la' lo'] by simp_all
  show "driveTime (mkNextStopInfo spot nxt (getDistanceFromLatLonInKm la lo la' lo') mode) =
     formatDuration (Fin (real (driveMinutes (rounded_km la lo la' lo'))))"
    using d by (simp add: mkNextStopInfo_def Let_def Number_getDistance driveMinutes_def)
  show "walkTime (mkNextStopInfo spot nxt (getDistanceFromLatLonInKm la lo la' lo') mode) =
     formatDuration (Fin (real (walkMinutes (rounded_km la lo la' lo'))))"
    using w by (simp add: mkNextStopInfo_def Let_def Number_getDistance walkMinutes_def)
  show "distance (mkNextStopInfo spot nxt distKm mode) = distKm @ '' km''"
    by (simp add: mkNextStopInfo_def Let_def)
qed

lemma nextStop_calcDay:
  assumes "Suc k < length (spots dy)"
  shows "map_option driveTime (nextStop (spots (calcDay dst ad st tm dy) ! k)) =
      Some (formatDuration (Fin (real (driveMinutes (legKm dy k)))))"
    and "map_option walkTime (nextStop (spots (calcDay dst ad st tm dy) ! k)) =
      Some (formatDuration (Fin (real (walkMinutes (legKm dy k)))))"
    and "map_option distance (nextStop (spots (calcDay dst ad st tm dy) ! k)) =
      Some (getDistanceFromLatLonInKm (lat (spots dy ! k)) (lon (spots dy ! k))
              (lat (spots dy ! Suc k)) (lon (spots dy ! Suc k)) @ '' km'')"
    and "nextArrivalTime (spots (calcDay dst ad st tm dy) ! k) = time (spots (calcDay dst ad st tm dy) ! Suc k)"
proof -
  have k: "k < length (spots dy)" "k < length (spots dy) - 1" using assms by simp_all
  show "map_option driveTime (nextStop (spots (calcDay dst ad st tm dy) ! k)) =
      Some (formatDuration (Fin (real (driveMinutes (legKm dy k)))))"
    using k by (simp add: nth_calcDay calcSpot_next mkNextStopInfo_times legKm_def)
  show "map_option walkTime (nextStop (spots (calcDay dst ad st tm dy) ! k)) =
      Some (formatDuration (Fin (real (walkMinutes (legKm dy k)))))"
    using k by (simp add: nth_calcDay calcSpot_next mkNextStopInfo_times legKm_def)
  show "map_option distance (nextStop (spots (calcDay dst ad st tm dy) ! k)) =
      Some (getDistanceFromLatLonInKm (lat (spots dy ! k)) (lon (spots dy ! k))
              (lat (spots dy ! Suc k)) (lon (spots dy ! Suc k)) @ '' km'')"
    using k by (simp add: nth_calcDay calcSpot_next mkNextStopInfo_times)
  have "arrivalClock dst ad st tm dy (Suc k) =
      snd (calcSpot ad st tm dy k (arrivalClock dst ad st tm dy k) (spots dy ! k))"
    unfolding arrivalClock_def using clock_at_Suc[OF k(1), of "calcSpot ad st tm dy" 0] by simp
  then show "nextArrivalTime (spots (calcDay dst ad st tm dy) ! k) = time (spots (calcDay dst ad st tm dy) ! Suc k)"
    using k assms by (simp add: nth_calcDay calcSpot_next calcSpot_fields)
qed








lemma scenario_start: "arrivalClock [''day1'' \<mapsto> ''09:00''] ad st tm day1 0 = Fin 540"
  unfolding arrivalClock_0 day1_simps by code_simp

lemma scenario_departure:
  "effectiveDeparture [''day1'' \<mapsto> ''09:00''] Map.empty [''day1-s0'' \<mapsto> ''1.5 hr''] tm day1 0 = Fin 630"
  by (simp add: effectiveDeparture_no_override truthy_def scenario_start js_or_def day1_simps
      mkSpotId_day1 parseStay_default)

lemma scenario_leg: "legMinutes [''day1-s0'' \<mapsto> ''car''] day1 0 = Fin 19"
  using legMinutes_car[of "[''day1-s0'' \<mapsto> ''car'']" day1 0]
  by (simp add: js_or_def day1_simps mkSpotId_day1 legKm_day1 minutes_59)

lemma scenario_times: "minutesToTimeStr (Fin 630) = ''10:30''" "minutesToTimeStr (Fin 649) = ''10:49''"
  by code_simp+

lemma scenario_arrival:
  "time (spots (calcDay [''day1'' \<mapsto> ''09:00''] Map.empty [''day1-s0'' \<mapsto> ''1.5 hr'']
      [''day1-s0'' \<mapsto> ''car''] day1) ! 1) = ''10:49''"
  by (simp add: time_calcDay day1_simps arrivalClock_Suc scenario_departure scenario_leg scenario_times)






section \<open>The claims\<close>







text \<open>
  C3, as amended. A missing or empty day start time resolves to 540 minutes and the empty
  time string parses to 0 minutes. A non-empty time string with a non-numeric hour or
  minute part, or with no colon, parses to \<open>NaN\<close>: there is no fallback. A \<open>NaN\<close> clock
  shows as \<open>NaN:NaN\<close> and carries over to the next stop, unless the stop it passes has an
  actual-departure override.
\<close>

theorem malformed_time_is_NaN:
  "(\<not> truthy (dst (dayId dy)) \<longrightarrow> arrivalClock dst ad st tm dy 0 = Fin 540) \<and>
   timeToMinutes [] = Fin 0 \<and>
   (t \<noteq> [] \<and> split CHR '':'' t = h # m # rest \<and> (Number h = NaN \<or> Number m = NaN) \<longrightarrow>
      timeToMinutes t = NaN) \<and>
   (t \<noteq> [] \<and> CHR '':'' \<notin> set t \<longrightarrow> timeToMinutes t = NaN) \<and>
   minutesToTimeStr NaN = ''NaN:NaN'' \<and>
   (Suc k < length (spots dy) \<and> arrivalClock dst ad st tm dy k = NaN \<and>
    \<not> truthy (ad (mkSpotId (dayId dy) k)) \<longrightarrow>
      arrivalClock dst ad st tm dy (Suc k) = NaN \<and>
      time (spots (calcDay dst ad st tm dy) ! Suc k) = ''NaN:NaN'')"
proof (intro conjI impI)
  show "arrivalClock dst ad st tm dy 0 = Fin 540" if "\<not> truthy (dst (dayId dy))"
    using that by (simp add: arrivalClock_0 start_default)
  show "timeToMinutes [] = Fin 0" by (simp add: timeToMinutes_def)
  show "timeToMinutes t = NaN"
    if "t \<noteq> [] \<and> split CHR '':'' t = h # m # rest \<and> (Number h = NaN \<or> Number m = NaN)"
    using that timeToMinutes_NaN_part by blast
  show "timeToMinutes t = NaN" if "t \<noteq> [] \<and> CHR '':'' \<notin> set t"
    using that timeToMinutes_no_colon by blast
  show "minutesToTimeStr NaN = ''NaN:NaN''" by (rule NaN_display)
  assume a: "Suc k < length (spots dy) \<and> arrivalClock dst ad st tm dy k = NaN \<and>
    \<not> truthy (ad (mkSpotId (dayId dy) k))"
  then show c: "arrivalClock dst ad st tm dy (Suc k) = NaN" using NaN_carries_over by blast
  show "time (spots (calcDay dst ad st tm dy) ! Suc k) = ''NaN:NaN''"
    using a by (simp add: time_calcDay c NaN_display)
qed

theorem malformed_time_is_NaN_witness:
  "(\<not> truthy (Map.empty (dayId day1)) \<and> ''ab:cd'' \<noteq> [] \<and>
    split CHR '':'' ''ab:cd'' = [''ab'', ''cd''] \<and> Number ''ab'' = NaN \<and>
    Suc 0 < length (spots day1) \<and>
    arrivalClock [''day1'' \<mapsto> ''ab:cd''] Map.empty Map.empty Map.empty day1 0 = NaN \<and>
    \<not> truthy (Map.empty (mkSpotId (dayId day1) 0))) \<and>
   arrivalClock Map.empty Map.empty Map.empty Map.empty day1 0 = Fin 540 \<and>
   timeToMinutes ''ab:cd'' = NaN \<and> timeToMinutes ''0900'' = NaN \<and>
   arrivalClock [''day1'' \<mapsto> ''ab:cd''] Map.empty Map.empty Map.empty day1 (Suc 0) = NaN \<and>
   time (spots (calcDay [''day1'' \<mapsto> ''ab:cd''] Map.empty Map.empty Map.empty day1) ! Suc 0) = ''NaN:NaN''"
  using malformed_time_is_NaN[of Map.empty day1 Map.empty Map.empty Map.empty "''ab:cd''" "''ab''" "''cd''" "[]" 0]
    malformed_time_is_NaN[of "[''day1'' \<mapsto> ''ab:cd'']" day1 Map.empty Map.empty Map.empty "''0900''" "''ab''" "''cd''" "[]" 0]
  by (simp add: truthy_def Number_abcd start_abcd day1_simps)

text \<open>
  C3 as stated promises a fallback. With the day start time \<open>ab:cd\<close> the clock starts as
  \<open>NaN\<close>, and both stops of the day arrive at \<open>NaN:NaN\<close>.
\<close>

theorem malformed_time_counterexample:
  "timeToMinutes ''ab:cd'' = NaN \<and>
   arrivalClock [''day1'' \<mapsto> ''ab:cd''] Map.empty Map.empty Map.empty day1 0 = NaN \<and>
   time (spots (calcDay [''day1'' \<mapsto> ''ab:cd''] Map.empty Map.empty Map.empty day1) ! 0) = ''NaN:NaN'' \<and>
   time (spots (calcDay [''day1'' \<mapsto> ''ab:cd''] Map.empty Map.empty Map.empty day1) ! 1) = ''NaN:NaN''"
proof -
  let ?dst = "[''day1'' \<mapsto> ''ab:cd'']"
  have a: "timeToMinutes ''ab:cd'' = NaN" by code_simp
  have c1: "arrivalClock ?dst Map.empty Map.empty Map.empty day1 (Suc 0) = NaN"
    by (rule NaN_carries_over) (simp_all add: day1_simps start_abcd truthy_def)
  show ?thesis
    by (simp add: a start_abcd time_calcDay day1_simps c1 NaN_display)
qed

text \<open>
  C4. Stay-duration resolution: the string \<open>1.5 hr\<close> resolves to 90 minutes, \<open>45 min\<close> to
  45 minutes, \<open>-\<close> and \<open>Overnight\<close> to 0 minutes, and a stop with no entry in the stays
  map gets the stay string \<open>1.5 hr\<close>, which resolves to 90 minutes.
\<close>

theorem stay_duration_resolution:
  "parseStayDuration ''1.5 hr'' = Fin 90 \<and> parseStayDuration ''45 min'' = Fin 45 \<and>
   parseStayDuration ''-'' = Fin 0 \<and> parseStayDuration ''Overnight'' = Fin 0 \<and>
   (k < length (spots dy) \<and> st (mkSpotId (dayId dy) k) = None \<longrightarrow>
      stay (spots (calcDay dst ad st tm dy) ! k) = ''1.5 hr'' \<and>
      parseStayDuration (stay (spots (calcDay dst ad st tm dy) ! k)) = Fin 90)"
proof -
  have a: "parseStayDuration ''1.5 hr'' = Fin 90" by code_simp
  have b: "parseStayDuration ''45 min'' = Fin 45" by code_simp
  have c: "parseStayDuration ''-'' = Fin 0" by code_simp
  have d: "parseStayDuration ''Overnight'' = Fin 0" by code_simp
  have e: "stay (spots (calcDay dst ad st tm dy) ! k) = ''1.5 hr''"
    if "k < length (spots dy)" "st (mkSpotId (dayId dy) k) = None"
    using that by (simp add: nth_calcDay calcSpot_fields js_or_def)
  show ?thesis using a b c d e by simp
qed

theorem stay_duration_resolution_witness:
  "(0 < length (spots day1) \<and> Map.empty (mkSpotId (dayId day1) 0) = (None :: string option)) \<and>
   stay (spots (calcDay Map.empty Map.empty Map.empty Map.empty day1) ! 0) = ''1.5 hr'' \<and>
   parseStayDuration (stay (spots (calcDay Map.empty Map.empty Map.empty Map.empty day1) ! 0)) = Fin 90"
  using stay_duration_resolution[of 0 day1 Map.empty Map.empty Map.empty Map.empty]
  by (simp add: day1_simps)

text \<open>
  C5. A stop with an actual-departure override (a non-empty value in the
  \<open>actualDepartures\<close> map) is marked departed and its effective departure is the override,
  whatever the stay configuration; when the value is a time of day \<open>HH:MM\<close>, the
  effective departure displays as that value. A stop with no override is not marked
  departed and leaves at its arrival plus the resolved stay.
\<close>

theorem actual_departure_override:
  assumes "k < length (spots dy)"
  shows "(ad (mkSpotId (dayId dy) k) = Some v \<and> v \<noteq> [] \<longrightarrow>
           isDeparted (spots (calcDay dst ad st tm dy) ! k) \<and>
           actualDepTime (spots (calcDay dst ad st tm dy) ! k) = Some v \<and>
           effectiveDeparture dst ad st tm dy k = timeToMinutes v \<and>
           (wf_hhmm v \<longrightarrow> minutesToTimeStr (effectiveDeparture dst ad st tm dy k) = v)) \<and>
         (ad (mkSpotId (dayId dy) k) = None \<longrightarrow>
           \<not> isDeparted (spots (calcDay dst ad st tm dy) ! k) \<and>
           effectiveDeparture dst ad st tm dy k =
             js_add (arrivalClock dst ad st tm dy k)
               (parseStayDuration (stay (spots (calcDay dst ad st tm dy) ! k))))"
proof (intro conjI impI)
  assume a: "ad (mkSpotId (dayId dy) k) = Some v \<and> v \<noteq> []"
  then have t: "truthy (ad (mkSpotId (dayId dy) k))" by (simp add: truthy_def)
  show "isDeparted (spots (calcDay dst ad st tm dy) ! k)"
    using assms t by (simp add: nth_calcDay calcSpot_fields)
  show "actualDepTime (spots (calcDay dst ad st tm dy) ! k) = Some v"
    using assms t a by (simp add: nth_calcDay calcSpot_fields)
  show e: "effectiveDeparture dst ad st tm dy k = timeToMinutes v"
    using a by (simp add: effectiveDeparture_override)
  show "minutesToTimeStr (effectiveDeparture dst ad st tm dy k) = v" if "wf_hhmm v"
    using that by (simp add: e minutesToTimeStr_timeToMinutes)
next
  assume a: "ad (mkSpotId (dayId dy) k) = None"
  then have t: "\<not> truthy (ad (mkSpotId (dayId dy) k))" by (simp add: truthy_def)
  show "\<not> isDeparted (spots (calcDay dst ad st tm dy) ! k)"
    using assms t by (simp add: nth_calcDay calcSpot_fields)
  show "effectiveDeparture dst ad st tm dy k =
      js_add (arrivalClock dst ad st tm dy k)
        (parseStayDuration (stay (spots (calcDay dst ad st tm dy) ! k)))"
    using assms t by (simp add: effectiveDeparture_no_override nth_calcDay calcSpot_fields)
qed

theorem actual_departure_override_witness:
  "(0 < length (spots day1) \<and> [''day1-s0'' \<mapsto> ''10:15''] (mkSpotId (dayId day1) 0) = Some ''10:15'' \<and>
    ''10:15'' \<noteq> [] \<and> wf_hhmm ''10:15'') \<and>
   isDeparted (spots (calcDay Map.empty [''day1-s0'' \<mapsto> ''10:15''] [''day1-s0'' \<mapsto> ''45 min''] Map.empty day1) ! 0) \<and>
   minutesToTimeStr (effectiveDeparture Map.empty [''day1-s0'' \<mapsto> ''10:15''] [''day1-s0'' \<mapsto> ''45 min''] Map.empty day1 0) = ''10:15'' \<and>
   (1 < length (spots day1) \<and> [''day1-s0'' \<mapsto> ''10:15''] (mkSpotId (dayId day1) 1) = None) \<and>
   \<not> isDeparted (spots (calcDay Map.empty [''day1-s0'' \<mapsto> ''10:15''] [''day1-s0'' \<mapsto> ''45 min''] Map.empty day1) ! 1)"
  using actual_departure_override[of 0 day1 "[''day1-s0'' \<mapsto> ''10:15'']" "''10:15''" Map.empty "[''day1-s0'' \<mapsto> ''45 min'']" Map.empty]
    actual_departure_override[of 1 day1 "[''day1-s0'' \<mapsto> ''10:15'']" "''10:15''" Map.empty "[''day1-s0'' \<mapsto> ''45 min'']" Map.empty]
  by (simp add: day1_simps mkSpotId_day1 mkSpotId_Suc0 wf_1015 minutesToTimeStr_timeToMinutes)




text \<open>
  C7, as amended. For the day that starts at \<open>09:00\<close>, with stop 0 at (35.6895, 139.6917),
  stay \<open>1.5 hr\<close> and mode car, and stop 1 at (35.6586, 139.7454): the effective departure
  of stop 0 is \<open>10:30\<close>, the distance string is \<open>5.9\<close> (the haversine distance lies between
  5.85 and 5.95 km), the leg takes \<open>round(5.9 / 40 * 60) + 10 = 19\<close> minutes, and stop 1
  is reached at \<open>10:49\<close>.
\<close>

theorem end_to_end_scenario:
  "time (spots (calcDay [''day1'' \<mapsto> ''09:00''] Map.empty [''day1-s0'' \<mapsto> ''1.5 hr'']
      [''day1-s0'' \<mapsto> ''car''] day1) ! 0) = ''09:00'' \<and>
   effectiveDeparture [''day1'' \<mapsto> ''09:00''] Map.empty [''day1-s0'' \<mapsto> ''1.5 hr'']
      [''day1-s0'' \<mapsto> ''car''] day1 0 = Fin 630 \<and>
   minutesToTimeStr (Fin 630) = ''10:30'' \<and>
   getDistanceFromLatLonInKm (lat stopA) (lon stopA) (lat stopB) (lon stopB) = ''5.9'' \<and>
   legMinutes [''day1-s0'' \<mapsto> ''car''] day1 0 = Fin 19 \<and>
   nextArrivalTime (spots (calcDay [''day1'' \<mapsto> ''09:00''] Map.empty [''day1-s0'' \<mapsto> ''1.5 hr'']
      [''day1-s0'' \<mapsto> ''car''] day1) ! 0) = ''10:49'' \<and>
   time (spots (calcDay [''day1'' \<mapsto> ''09:00''] Map.empty [''day1-s0'' \<mapsto> ''1.5 hr'']
      [''day1-s0'' \<mapsto> ''car''] day1) ! 1) = ''10:49''"
proof -
  have t0: "time (spots (calcDay [''day1'' \<mapsto> ''09:00''] Map.empty [''day1-s0'' \<mapsto> ''1.5 hr'']
      [''day1-s0'' \<mapsto> ''car''] day1) ! 0) = ''09:00''"
    using minutesToTimeStr_nonneg[of 540]
    by (simp add: time_calcDay day1_simps scenario_start) code_simp
  have n: "nextArrivalTime (spots (calcDay [''day1'' \<mapsto> ''09:00''] Map.empty [''day1-s0'' \<mapsto> ''1.5 hr'']
      [''day1-s0'' \<mapsto> ''car''] day1) ! 0) = ''10:49''"
    using nextStop_calcDay(4)[of 0 day1] scenario_arrival by (simp add: day1_simps)
  show ?thesis
    using t0 n scenario_arrival by (simp add: scenario_departure scenario_times distance_AB scenario_leg)
qed

text \<open>
  C7 as stated takes the distance to be 5.3 km, hence 18 minutes and an arrival at
  \<open>10:48\<close>.
\<close>

theorem end_to_end_scenario_counterexample:
  "legMinutes [''day1-s0'' \<mapsto> ''car''] day1 0 \<noteq> Fin 18 \<and>
   time (spots (calcDay [''day1'' \<mapsto> ''09:00''] Map.empty [''day1-s0'' \<mapsto> ''1.5 hr'']
      [''day1-s0'' \<mapsto> ''car''] day1) ! 1) \<noteq> ''10:48'' \<and>
   getDistanceFromLatLonInKm (lat stopA) (lon stopA) (lat stopB) (lon stopB) \<noteq> ''5.3''"
  using scenario_arrival by (simp add: scenario_leg distance_AB)



text \<open>
  C9. The derived output keeps the reference data: as many days as the input, each with
  its \<open>dayId\<close> and as many stops in the same order, and every derived stop carries all the
  fields of its input stop unchanged (name, coordinates, ticket, descriptive text).
\<close>

theorem reference_fields_preserved:
  assumes "i < length days" "k < length (spots (days ! i))"
  shows "length (itinerary (Some days) dst ad st tm) = length days \<and>
         dayId (itinerary (Some days) dst ad st tm ! i) = dayId (days ! i) \<and>
         length (spots (itinerary (Some days) dst ad st tm ! i)) = length (spots (days ! i)) \<and>
         stop.truncate (spots (itinerary (Some days) dst ad st tm ! i) ! k) = spots (days ! i) ! k \<and>
         name (spots (itinerary (Some days) dst ad st tm ! i) ! k) = name (spots (days ! i) ! k) \<and>
         lat (spots (itinerary (Some days) dst ad st tm ! i) ! k) = lat (spots (days ! i) ! k) \<and>
         lon (spots (itinerary (Some days) dst ad st tm ! i) ! k) = lon (spots (days ! i) ! k) \<and>
         ticket (spots (itinerary (Some days) dst ad st tm ! i) ! k) = ticket (spots (days ! i) ! k) \<and>
         desc (spots (itinerary (Some days) dst ad st tm ! i) ! k) = desc (spots (days ! i) ! k)"
proof -
  let ?out = "spots (itinerary (Some days) dst ad st tm ! i) ! k"
  have t: "stop.truncate ?out = spots (days ! i) ! k"
    using assms by (simp add: nth_itinerary nth_calcDay calcSpot_fields)
  have "name ?out = name (stop.truncate ?out)" "lat ?out = lat (stop.truncate ?out)"
    "lon ?out = lon (stop.truncate ?out)" "ticket ?out = ticket (stop.truncate ?out)"
    "desc ?out = desc (stop.truncate ?out)"
    by (simp_all only: truncate_fields)
  then show ?thesis
    unfolding t using assms(1) by (simp add: length_itinerary nth_itinerary calcDay_frame)
qed

theorem reference_fields_preserved_witness:
  "(0 < length [day1, day2] \<and> 1 < length (spots ([day1, day2] ! 0))) \<and>
   length (itinerary (Some [day1, day2]) Map.empty Map.empty Map.empty Map.empty) = 2 \<and>
   dayId (itinerary (Some [day1, day2]) Map.empty Map.empty Map.empty Map.empty ! 0) = ''day1'' \<and>
   length (spots (itinerary (Some [day1, day2]) Map.empty Map.empty Map.empty Map.empty ! 0)) = 2 \<and>
   stop.truncate (spots (itinerary (Some [day1, day2]) Map.empty Map.empty Map.empty Map.empty ! 0) ! 1) = stopB \<and>
   name (spots (itinerary (Some [day1, day2]) Map.empty Map.empty Map.empty Map.empty ! 0) ! 1) = ''B''"
  using reference_fields_preserved[of 0 "[day1, day2]" 1 Map.empty Map.empty Map.empty Map.empty]
  by (simp add: day1_simps stopB_def)

text \<open>
  C10. An empty string in the \<open>actualDepartures\<close> map counts as no override: the stop is
  not marked departed, \<open>actualDepTime\<close> is null, and the effective departure is the arrival
  plus the resolved stay.
\<close>

theorem empty_departure_is_absent:
  assumes "k < length (spots dy)" "ad (mkSpotId (dayId dy) k) = Some []"
  shows "\<not> isDeparted (spots (calcDay dst ad st tm dy) ! k) \<and>
         actualDepTime (spots (calcDay dst ad st tm dy) ! k) = None \<and>
         effectiveDeparture dst ad st tm dy k =
           js_add (arrivalClock dst ad st tm dy k)
             (parseStayDuration (stay (spots (calcDay dst ad st tm dy) ! k)))"
proof -
  have t: "\<not> truthy (ad (mkSpotId (dayId dy) k))" using assms(2) by (simp add: truthy_def)
  show ?thesis
    using assms(1) t
    by (simp add: nth_calcDay calcSpot_fields effectiveDeparture_no_override)
qed

theorem empty_departure_is_absent_witness:
  "(0 < length (spots day1) \<and> [''day1-s0'' \<mapsto> []] (mkSpotId (dayId day1) 0) = Some []) \<and>
   \<not> isDeparted (spots (calcDay Map.empty [''day1-s0'' \<mapsto> []] Map.empty Map.empty day1) ! 0) \<and>
   actualDepTime (spots (calcDay Map.empty [''day1-s0'' \<mapsto> []] Map.empty Map.empty day1) ! 0) = None \<and>
   effectiveDeparture Map.empty [''day1-s0'' \<mapsto> []] Map.empty Map.empty day1 0 = Fin 630"
  using empty_departure_is_absent[of 0 day1 "[''day1-s0'' \<mapsto> []]" Map.empty Map.empty Map.empty]

  by (simp add: day1_simps mkSpotId_day1 arrival_day1_0 nth_calcDay calcSpot_fields js_or_def parseStay_default)

end
